theory Spec2Isabelle
  imports Complex_Main "HOL-Library.Word"
begin

section \<open>Transport encoding of binary payloads\<close>

text \<open>
  A \<^verbatim>\<open>Uint8Array\<close> is a list of bytes. A JavaScript string is modelled as a
  \<^typ>\<open>string\<close>: every string the transport encoding builds or accepts has code units
  below 256 (\<^verbatim>\<open>btoa\<close> and \<^verbatim>\<open>atob\<close> reject anything else).
\<close>

type_synonym bytes = "8 word list"

text \<open>
  A value thrown by a callee. The handlers of the provider test the caught value with
  \<^verbatim>\<open>err instanceof Error\<close>; an \<^verbatim>\<open>Error\<close> is represented by its message.
\<close>

datatype thrown = IsError string | NotError

subsection \<open>The host functions \<^verbatim>\<open>btoa\<close> and \<^verbatim>\<open>atob\<close>\<close>

text \<open>
  \<^verbatim>\<open>btoa\<close> and \<^verbatim>\<open>atob\<close> belong to the host platform, not to the repository. They are
  modelled after the HTML standard: \<^verbatim>\<open>btoa\<close> is the base64 encoding of RFC 4648 with
  padding, \<^verbatim>\<open>atob\<close> is the standard's forgiving-base64 decode, which throws an
  \<^verbatim>\<open>InvalidCharacterError\<close> (a \<^verbatim>\<open>DOMException\<close>, which is an \<^verbatim>\<open>Error\<close>) on failure.
\<close>

definition b64_alphabet :: string where
  "b64_alphabet = ''ABCDEFGHIJKLMNOPQRSTUVWXYZabcdefghijklmnopqrstuvwxyz0123456789+/''"

definition b64_char :: "nat \<Rightarrow> char" where
  "b64_char v = b64_alphabet ! v"

fun index_of :: "'a \<Rightarrow> 'a list \<Rightarrow> nat option" where
  "index_of c [] = None"
| "index_of c (x # xs) =
     (if c = x then Some 0 else (case index_of c xs of None \<Rightarrow> None | Some i \<Rightarrow> Some (Suc i)))"

definition b64_index :: "char \<Rightarrow> nat option" where
  "b64_index c = index_of c b64_alphabet"

fun btoa :: "string \<Rightarrow> string" where
  "btoa [] = []"
| "btoa [a] =
     (let x = (of_char a :: nat) in
      [b64_char (x div 4), b64_char ((x mod 4) * 16), CHR ''='', CHR ''=''])"
| "btoa [a, b] =
     (let x = (of_char a :: nat); y = (of_char b :: nat) in
      [b64_char (x div 4), b64_char ((x mod 4) * 16 + y div 16),
       b64_char ((y mod 16) * 4), CHR ''=''])"
| "btoa (a # b # c # rest) =
     (let x = (of_char a :: nat); y = (of_char b :: nat); z = (of_char c :: nat) in
      [b64_char (x div 4), b64_char ((x mod 4) * 16 + y div 16),
       b64_char ((y mod 16) * 4 + z div 64), b64_char (z mod 64)] @ btoa rest)"

definition ascii_whitespace :: "char \<Rightarrow> bool" where
  "ascii_whitespace c =
     (c = char_of (9 :: nat) \<or> c = char_of (10 :: nat) \<or> c = char_of (12 :: nat)
      \<or> c = char_of (13 :: nat) \<or> c = CHR '' '')"

definition strip_padding :: "string \<Rightarrow> string" where
  "strip_padding d =
     (if length d mod 4 = 0 then
        (if d \<noteq> [] \<and> last d = CHR ''='' then
           (if butlast d \<noteq> [] \<and> last (butlast d) = CHR ''='' then butlast (butlast d)
            else butlast d)
         else d)
      else d)"

fun decode_sextets :: "nat list \<Rightarrow> string" where
  "decode_sextets (w # x # y # z # rest) =
     [char_of (w * 4 + x div 16), char_of ((x mod 16) * 16 + y div 4),
      char_of ((y mod 4) * 64 + z)] @ decode_sextets rest"
| "decode_sextets [w, x, y] = [char_of (w * 4 + x div 16), char_of ((x mod 16) * 16 + y div 4)]"
| "decode_sextets [w, x] = [char_of (w * 4 + x div 16)]"
| "decode_sextets [w] = []"
| "decode_sextets [] = []"

definition atob :: "string \<Rightarrow> thrown + string" where
  "atob encoded =
     (let d = strip_padding (filter (\<lambda>c. \<not> ascii_whitespace c) encoded) in
      if length d mod 4 = 1 then Inl (IsError ''InvalidCharacterError'')
      else (case those (map b64_index d) of
              None \<Rightarrow> Inl (IsError ''InvalidCharacterError'')
            | Some vs \<Rightarrow> Inr (decode_sextets vs)))"

subsection \<open>\<^verbatim>\<open>encodeUpdate\<close> and \<^verbatim>\<open>decodeUpdate\<close>\<close>

definition chunkSize :: nat where
  "chunkSize = 32768"

text \<open>\<^verbatim>\<open>update.subarray(begin, end)\<close>, with the end clamped to the array's length.\<close>

definition subarray :: "bytes \<Rightarrow> nat \<Rightarrow> nat \<Rightarrow> bytes" where
  "subarray update i j = take (j - i) (drop i update)"

text \<open>\<^verbatim>\<open>String.fromCharCode.apply(null, Array.from(chunk))\<close>: one code unit per byte.\<close>

definition fromCharCode :: "bytes \<Rightarrow> string" where
  "fromCharCode chunk = map (\<lambda>b. char_of (unat b)) chunk"

function encodeUpdate_loop :: "bytes \<Rightarrow> nat \<Rightarrow> string \<Rightarrow> string" where
  "encodeUpdate_loop update i binary =
     (if i < length update
      then encodeUpdate_loop update (i + chunkSize)
             (binary @ fromCharCode (subarray update i (i + chunkSize)))
      else binary)"
  by pat_completeness auto
termination
  by (relation "measure (\<lambda>(update, i, binary). length update - i)") (auto simp: chunkSize_def)

declare encodeUpdate_loop.simps [simp del]

definition encodeUpdate :: "bytes \<Rightarrow> string" where
  "encodeUpdate update = btoa (encodeUpdate_loop update 0 [])"

text \<open>
  The loop of \<^verbatim>\<open>decodeUpdate\<close> writes \<^verbatim>\<open>binary.charCodeAt(i)\<close> into a zero-filled
  \<^verbatim>\<open>Uint8Array\<close> of the same length; the store keeps the value modulo 256.
\<close>

function decodeUpdate_loop :: "string \<Rightarrow> nat \<Rightarrow> bytes \<Rightarrow> bytes" where
  "decodeUpdate_loop binary i bs =
     (if i < length binary
      then decodeUpdate_loop binary (i + 1) (bs[i := word_of_nat (of_char (binary ! i))])
      else bs)"
  by pat_completeness auto
termination
  by (relation "measure (\<lambda>(binary, i, bs). length binary - i)") auto

declare decodeUpdate_loop.simps [simp del]

definition decodeUpdate :: "string \<Rightarrow> thrown + bytes" where
  "decodeUpdate encoded =
     (case atob encoded of
        Inl err \<Rightarrow> Inl err
      | Inr binary \<Rightarrow> Inr (decodeUpdate_loop binary 0 (replicate (length binary) 0)))"

section \<open>The provider\<close>

subsection \<open>Data\<close>

datatype Status = Connecting | Connected | Disconnected

datatype REALTIME_SUBSCRIBE_STATES = SUBSCRIBED | TIMED_OUT | CLOSED | CHANNEL_ERROR

text \<open>
  A JavaScript number is an IEEE double: a finite value (given by the real number it
  denotes; every finite double is below \<open>2 ^ 1024\<close> in magnitude), one of the two
  infinities, or \<^verbatim>\<open>NaN\<close>. The sign of zero is not represented; no operation below
  depends on it.
\<close>

datatype jsnum = Num real | PosInf | NegInf | NaN

text \<open>The result of an operation whose exact value has the significand of a double.\<close>

definition js_overflow :: "real \<Rightarrow> jsnum" where
  "js_overflow r =
     (if 2 ^ 1024 \<le> r then PosInf else if r \<le> - (2 ^ 1024) then NegInf else Num r)"

text \<open>
  \<^verbatim>\<open>x * Math.pow(2, k)\<close> for a counter \<open>k\<close>. \<^verbatim>\<open>Math.pow(2, k)\<close> is the exact power up to
  \<open>k = 1023\<close> and \<^verbatim>\<open>Infinity\<close> from 1024 on. Multiplying a double by a power of two
  only moves its exponent, so the product is exact unless it overflows; zero times
  \<^verbatim>\<open>Infinity\<close> is \<^verbatim>\<open>NaN\<close>.
\<close>

definition js_mul_pow2 :: "jsnum \<Rightarrow> nat \<Rightarrow> jsnum" where
  "js_mul_pow2 x k =
     (case x of
        Num r \<Rightarrow>
          if k < 1024 then js_overflow (r * 2 ^ k)
          else if r = 0 then NaN else if 0 < r then PosInf else NegInf
      | PosInf \<Rightarrow> PosInf
      | NegInf \<Rightarrow> NegInf
      | NaN \<Rightarrow> NaN)"

text \<open>\<^verbatim>\<open>Math.min(x, y)\<close>\<close>

fun js_min :: "jsnum \<Rightarrow> jsnum \<Rightarrow> jsnum" where
  "js_min NaN y = NaN"
| "js_min x NaN = NaN"
| "js_min NegInf y = NegInf"
| "js_min x NegInf = NegInf"
| "js_min PosInf y = y"
| "js_min x PosInf = x"
| "js_min (Num a) (Num b) = Num (min a b)"

text \<open>\<^verbatim>\<open>x <= y\<close>; every comparison with \<^verbatim>\<open>NaN\<close> is false.\<close>

fun js_le :: "jsnum \<Rightarrow> jsnum \<Rightarrow> bool" where
  "js_le NaN y = False"
| "js_le x NaN = False"
| "js_le NegInf y = True"
| "js_le x PosInf = True"
| "js_le (Num a) (Num b) = (a \<le> b)"
| "js_le (Num a) NegInf = False"
| "js_le PosInf y = False"

text \<open>
  \<^verbatim>\<open>k++\<close> on a counter that holds a natural number: from \<open>2 ^ 53\<close> on the successor is
  not a double and the sum rounds back to \<open>k\<close>.
\<close>

definition js_incr :: "nat \<Rightarrow> nat" where
  "js_incr k = (if k < 2 ^ 53 then k + 1 else k)"

text \<open>
  The options object. A field that is absent is \<open>None\<close>; an absent options object behaves
  as the one with every field absent (\<^verbatim>\<open>this.options?.f ?? default\<close>).
\<close>

record SupabaseProviderOptions =
  broadcastThrottleMs :: "jsnum option"
  autoReconnect :: "bool option"
  maxReconnectAttempts :: "jsnum option"
  reconnectDelay :: "jsnum option"
  maxReconnectDelay :: "jsnum option"

text \<open>
  A handle returned by \<^verbatim>\<open>setTimeout\<close>. Each handle is stored in exactly one field of
  the provider and is cleared before that field is overwritten, so the handle itself
  records whether its timer is still pending (with its delay) or has already fired.
\<close>

datatype timeout = Pending jsnum | Fired

text \<open>The origin tag of a change notification; the code only compares it with \<^verbatim>\<open>'remote'\<close>.\<close>

datatype origin = OriginRemote | OriginOther

datatype RealtimeYPayload =
  RealtimeYPayload (p_update: string) (p_user: string) (p_timestamp: int)

datatype StateVectorPayload =
  StateVectorPayload (sv_stateVector: string) (sv_user: string) (sv_timestamp: int)

datatype wire = YPayload RealtimeYPayload | SVPayload StateVectorPayload

text \<open>The events of \<^verbatim>\<open>ProviderEventMap\<close>; an \<^verbatim>\<open>Error\<close> is carried by its message.\<close>

datatype emitted =
  EvMessage bytes | EvAwareness bytes | EvStatus Status | EvConnect | EvDisconnect
  | EvError string

text \<open>
  What a method does to its collaborators, in order: \<^verbatim>\<open>channel.send\<close> of a broadcast,
  \<^verbatim>\<open>this.emit\<close>, subscribing a fresh channel, and \<^verbatim>\<open>supabase.removeChannel\<close>. The listener
  registry behind \<^verbatim>\<open>emit\<close> is not part of the model: listeners are callbacks of the
  embedding application.
\<close>

datatype effect =
  Send string wire | Emit emitted | Subscribe string | RemoveChannel string

definition UPDATE_EVENT :: string where
  "UPDATE_EVENT = ''y-supabase-update''"

definition STATE_VECTOR_EVENT :: string where
  "STATE_VECTOR_EVENT = ''y-supabase-state-vector''"

definition AWARENESS_EVENT :: string where
  "AWARENESS_EVENT = ''y-supabase-awareness''"

text \<open>
  The merge engine (Yjs) and the awareness protocol are collaborators given by their
  interface. \<^verbatim>\<open>Y.applyUpdate\<close> and \<^verbatim>\<open>applyAwarenessUpdate\<close> change their first
  argument in place and may throw after having changed it: they return the content they
  leave behind, and the thrown value if they throw. \<^verbatim>\<open>Y.encodeStateAsUpdate\<close> only reads
  the document; when it throws it returns \<open>Inl\<close>.
  \<open>awarenessClients\<close> is \<^verbatim>\<open>Array.from(awareness.getStates().keys())\<close>;
  \<open>removeAwarenessStates\<close> returns the container and the clients it removed.
\<close>

record ('doc, 'aw) engine =
  applyUpdate :: "'doc \<Rightarrow> bytes \<Rightarrow> 'doc \<times> thrown option"
  encodeStateVector :: "'doc \<Rightarrow> bytes"
  encodeStateAsUpdate :: "'doc \<Rightarrow> bytes \<Rightarrow> thrown + bytes"
  mergeUpdates :: "bytes list \<Rightarrow> bytes"
  clientID :: "'doc \<Rightarrow> nat"
  applyAwarenessUpdate :: "'aw \<Rightarrow> bytes \<Rightarrow> 'aw \<times> thrown option"
  encodeAwarenessUpdate :: "'aw \<Rightarrow> nat list \<Rightarrow> bytes"
  awarenessClients :: "'aw \<Rightarrow> nat list"
  removeAwarenessStates :: "'aw \<Rightarrow> nat list \<Rightarrow> 'aw \<times> nat list"

text \<open>
  The fields of the class. \<open>channel\<close> holds the topic of the current channel object;
  \<open>docListening\<close> and \<open>awarenessListening\<close> record whether \<^verbatim>\<open>handleDocUpdate\<close> and
  \<^verbatim>\<open>handleAwarenessUpdate\<close> are registered on the document and on the awareness
  container.
\<close>

record ('doc, 'aw) provider =
  channelName :: string
  doc :: 'doc
  channel :: "string option"
  status :: Status
  userId :: string
  broadcastTimeout :: "timeout option"
  pendingUpdates :: "bytes list"
  options :: SupabaseProviderOptions
  syncedPeers :: "string set"
  awareness :: "'aw option"
  reconnectAttempts :: nat
  reconnectTimeout :: "timeout option"
  shouldReconnect :: bool
  docListening :: bool
  awarenessListening :: bool

type_synonym ('doc, 'aw) action =
  "('doc, 'aw) provider \<Rightarrow> ('doc, 'aw) provider \<times> effect list"

subsection \<open>Methods\<close>

text \<open>Statements run one after the other; their effects are concatenated.\<close>

fun sequence :: "('s \<Rightarrow> 's \<times> 'e list) list \<Rightarrow> 's \<Rightarrow> 's \<times> 'e list" where
  "sequence [] s = (s, [])"
| "sequence (f # fs) s =
     (case f s of (s1, o1) \<Rightarrow> (case sequence fs s1 of (s2, o2) \<Rightarrow> (s2, o1 @ o2)))"

definition emit :: "emitted \<Rightarrow> ('doc, 'aw) action" where
  "emit ev s = (s, [Emit ev])"

text \<open>\<^verbatim>\<open>err instanceof Error ? err : new Error(fallback)\<close>\<close>

definition caught :: "thrown \<Rightarrow> string \<Rightarrow> string" where
  "caught err fallback = (case err of IsError m \<Rightarrow> m | NotError \<Rightarrow> fallback)"

definition setStatus :: "Status \<Rightarrow> ('doc, 'aw) action" where
  "setStatus next s = (s\<lparr>status := next\<rparr>, [Emit (EvStatus next)])"

definition broadcastUpdate :: "int \<Rightarrow> bytes \<Rightarrow> string \<Rightarrow> ('doc, 'aw) action" where
  "broadcastUpdate now upd event s =
     (case channel s of
        None \<Rightarrow> (s, [])
      | Some ch \<Rightarrow>
          (s, [Send event (YPayload (RealtimeYPayload (encodeUpdate upd) (userId s) now))]))"

text \<open>The callback armed by \<^verbatim>\<open>queueBroadcast\<close>, run when the flush timer fires.\<close>

definition queueBroadcast_timer :: "('doc, 'aw) engine \<Rightarrow> int \<Rightarrow> ('doc, 'aw) action" where
  "queueBroadcast_timer Y now s =
     (let s1 = s\<lparr>broadcastTimeout := None\<rparr> in
      if length (pendingUpdates s1) = 0 then (s1, [])
      else
        (let mergedUpdate =
               (if length (pendingUpdates s1) = 1 then pendingUpdates s1 ! 0
                else mergeUpdates Y (pendingUpdates s1));
             s2 = s1\<lparr>pendingUpdates := []\<rparr>
         in broadcastUpdate now mergedUpdate UPDATE_EVENT s2))"

definition queueBroadcast :: "int \<Rightarrow> bytes \<Rightarrow> ('doc, 'aw) action" where
  "queueBroadcast now upd s =
     (let throttle = (case broadcastThrottleMs (options s) of None \<Rightarrow> Num 0 | Some t \<Rightarrow> t) in
      if js_le throttle (Num 0) then broadcastUpdate now upd UPDATE_EVENT s
      else
        (let s1 = s\<lparr>pendingUpdates := pendingUpdates s @ [upd]\<rparr> in
         if broadcastTimeout s1 \<noteq> None then (s1, [])
         else (s1\<lparr>broadcastTimeout := Some (Pending throttle)\<rparr>, [])))"

definition handleDocUpdate :: "int \<Rightarrow> bytes \<Rightarrow> origin \<Rightarrow> ('doc, 'aw) action" where
  "handleDocUpdate now upd orig s =
     (if orig = OriginRemote then (s, []) else queueBroadcast now upd s)"

text \<open>
  \<^verbatim>\<open>Y.applyUpdate(this.doc, update, 'remote')\<close> makes the document notify its listeners
  with origin \<^verbatim>\<open>'remote'\<close>, on which \<^verbatim>\<open>handleDocUpdate\<close> returns at once; the same
  holds for \<^verbatim>\<open>applyAwarenessUpdate\<close> and \<^verbatim>\<open>handleAwarenessUpdate\<close>.
\<close>

definition handleRemoteUpdate ::
  "('doc, 'aw) engine \<Rightarrow> RealtimeYPayload \<Rightarrow> ('doc, 'aw) action" where
  "handleRemoteUpdate Y payload s =
     (if p_user payload = userId s then (s, [])
      else
        (case decodeUpdate (p_update payload) of
           Inl err \<Rightarrow> emit (EvError (caught err ''Failed to apply remote update'')) s
         | Inr upd \<Rightarrow>
             (case applyUpdate Y (doc s) upd of
                (d, Some err) \<Rightarrow>
                  emit (EvError (caught err ''Failed to apply remote update'')) (s\<lparr>doc := d\<rparr>)
              | (d, None) \<Rightarrow> emit (EvMessage upd) (s\<lparr>doc := d\<rparr>))))"

definition broadcastAwarenessUpdate :: "int \<Rightarrow> bytes \<Rightarrow> ('doc, 'aw) action" where
  "broadcastAwarenessUpdate now upd s =
     (case channel s of
        None \<Rightarrow> (s, [])
      | Some ch \<Rightarrow>
          (s, [Send AWARENESS_EVENT
                 (YPayload (RealtimeYPayload (encodeUpdate upd) (userId s) now))]))"

definition handleAwarenessUpdate ::
  "('doc, 'aw) engine \<Rightarrow> int \<Rightarrow> nat list \<Rightarrow> nat list \<Rightarrow> nat list \<Rightarrow> origin
   \<Rightarrow> ('doc, 'aw) action" where
  "handleAwarenessUpdate Y now added updated removed orig s =
     (case awareness s of
        None \<Rightarrow> (s, [])
      | Some aw \<Rightarrow>
          if orig = OriginRemote then (s, [])
          else broadcastAwarenessUpdate now
                 (encodeAwarenessUpdate Y aw (added @ updated @ removed)) s)"

definition handleRemoteAwareness ::
  "('doc, 'aw) engine \<Rightarrow> RealtimeYPayload \<Rightarrow> ('doc, 'aw) action" where
  "handleRemoteAwareness Y payload s =
     (case awareness s of
        None \<Rightarrow> (s, [])
      | Some aw \<Rightarrow>
          if p_user payload = userId s then (s, [])
          else
            (case decodeUpdate (p_update payload) of
               Inl err \<Rightarrow> emit (EvError (caught err ''Failed to apply awareness update'')) s
             | Inr upd \<Rightarrow>
                 (case applyAwarenessUpdate Y aw upd of
                    (aw', Some err) \<Rightarrow>
                      emit (EvError (caught err ''Failed to apply awareness update''))
                        (s\<lparr>awareness := Some aw'\<rparr>)
                  | (aw', None) \<Rightarrow> emit (EvAwareness upd) (s\<lparr>awareness := Some aw'\<rparr>))))"

definition sendStateVector :: "('doc, 'aw) engine \<Rightarrow> int \<Rightarrow> ('doc, 'aw) action" where
  "sendStateVector Y now s =
     (case channel s of
        None \<Rightarrow> (s, [])
      | Some ch \<Rightarrow>
          (s, [Send STATE_VECTOR_EVENT
                 (SVPayload (StateVectorPayload
                    (encodeUpdate (encodeStateVector Y (doc s))) (userId s) now))]))"

definition handleStateVector ::
  "('doc, 'aw) engine \<Rightarrow> int \<Rightarrow> StateVectorPayload \<Rightarrow> ('doc, 'aw) action" where
  "handleStateVector Y now payload s =
     (if sv_user payload = userId s then (s, [])
      else if sv_user payload \<in> syncedPeers s then (s, [])
      else
        (let s1 = s\<lparr>syncedPeers := insert (sv_user payload) (syncedPeers s)\<rparr> in
         case decodeUpdate (sv_stateVector payload) of
           Inl err \<Rightarrow> emit (EvError (caught err ''Failed to handle state vector'')) s1
         | Inr remoteStateVector \<Rightarrow>
             (case encodeStateAsUpdate Y (doc s1) remoteStateVector of
                Inl err \<Rightarrow> emit (EvError (caught err ''Failed to handle state vector'')) s1
              | Inr diff \<Rightarrow>
                  sequence
                    [if length diff > 2 then broadcastUpdate now diff UPDATE_EVENT
                     else (\<lambda>s. (s, [])),
                     sendStateVector Y now] s1)))"

definition connect :: "('doc, 'aw) action" where
  "connect s =
     (s\<lparr>shouldReconnect := True, docListening := True, syncedPeers := {},
        channel := Some (channelName s)\<rparr>,
      [Subscribe (channelName s)])"

definition scheduleReconnect :: "('doc, 'aw) action" where
  "scheduleReconnect s =
     (let autoReconnect' = (case autoReconnect (options s) of None \<Rightarrow> True | Some b \<Rightarrow> b);
          maxAttempts =
            (case maxReconnectAttempts (options s) of None \<Rightarrow> PosInf | Some n \<Rightarrow> n)
      in
      if \<not> autoReconnect' \<or> \<not> shouldReconnect s
         \<or> js_le maxAttempts (Num (real (reconnectAttempts s)))
      then (s, [])
      else
        (let s1 = (if reconnectTimeout s \<noteq> None then s\<lparr>reconnectTimeout := None\<rparr> else s);
             baseDelay = (case reconnectDelay (options s1) of None \<Rightarrow> Num 1000 | Some d \<Rightarrow> d);
             maxDelay =
               (case maxReconnectDelay (options s1) of None \<Rightarrow> Num 30000 | Some d \<Rightarrow> d);
             delay = js_min (js_mul_pow2 baseDelay (reconnectAttempts s1)) maxDelay
         in (s1\<lparr>reconnectAttempts := js_incr (reconnectAttempts s1),
                reconnectTimeout := Some (Pending delay)\<rparr>, [])))"

text \<open>The callback armed by \<^verbatim>\<open>scheduleReconnect\<close>, run when the reconnect timer fires.\<close>

definition scheduleReconnect_timer :: "('doc, 'aw) action" where
  "scheduleReconnect_timer s = (if shouldReconnect s then connect s else (s, []))"

text \<open>The callback passed to \<^verbatim>\<open>subscribe\<close> in \<^verbatim>\<open>connect\<close>.\<close>

definition subscribe_callback ::
  "('doc, 'aw) engine \<Rightarrow> int \<Rightarrow> REALTIME_SUBSCRIBE_STATES \<Rightarrow> string option
   \<Rightarrow> ('doc, 'aw) action" where
  "subscribe_callback Y now st err s =
     (case st of
        SUBSCRIBED \<Rightarrow>
          sequence
            [setStatus Connected,
             emit EvConnect,
             (\<lambda>s. (s\<lparr>reconnectAttempts := 0\<rparr>, [])),
             (\<lambda>s. case awareness s of
                     None \<Rightarrow> (s, [])
                   | Some aw \<Rightarrow>
                       broadcastAwarenessUpdate now
                         (encodeAwarenessUpdate Y aw (awarenessClients Y aw)) s),
             sendStateVector Y now] s
      | CHANNEL_ERROR \<Rightarrow>
          sequence
            [setStatus Disconnected,
             emit (EvError (case err of None \<Rightarrow> ''Channel error'' | Some m \<Rightarrow> m)),
             emit EvDisconnect,
             scheduleReconnect] s
      | TIMED_OUT \<Rightarrow>
          sequence
            [setStatus Disconnected,
             emit (EvError ''Connection timed out''),
             emit EvDisconnect,
             scheduleReconnect] s
      | CLOSED \<Rightarrow>
          sequence
            [setStatus Disconnected,
             emit EvDisconnect,
             scheduleReconnect] s)"

text \<open>
  \<^verbatim>\<open>destroy\<close>. Removing the local awareness state notifies the awareness listeners with
  origin \<^verbatim>\<open>'local'\<close> when something was removed, which reaches
  \<^verbatim>\<open>handleAwarenessUpdate\<close> while it is still registered. The \<^verbatim>\<open>beforeunload\<close> hook of
  the constructor only calls \<^verbatim>\<open>destroy\<close> and is covered by the event for that call.
\<close>

definition destroy :: "('doc, 'aw) engine \<Rightarrow> int \<Rightarrow> ('doc, 'aw) action" where
  "destroy Y now s =
     sequence
       [(\<lambda>s. (s\<lparr>shouldReconnect := False\<rparr>, [])),
        (\<lambda>s. if broadcastTimeout s \<noteq> None then (s\<lparr>broadcastTimeout := None\<rparr>, [])
              else (s, [])),
        (\<lambda>s. if reconnectTimeout s \<noteq> None then (s\<lparr>reconnectTimeout := None\<rparr>, [])
              else (s, [])),
        (\<lambda>s. (s\<lparr>docListening := False\<rparr>, [])),
        (\<lambda>s. case awareness s of
                None \<Rightarrow> (s, [])
              | Some aw \<Rightarrow>
                  (case removeAwarenessStates Y aw [clientID Y (doc s)] of
                     (aw', removed) \<Rightarrow>
                       sequence
                         [if removed \<noteq> [] \<and> awarenessListening s
                          then handleAwarenessUpdate Y now [] [] removed OriginOther
                          else (\<lambda>s. (s, [])),
                          (\<lambda>s. (s\<lparr>awarenessListening := False\<rparr>, []))]
                         (s\<lparr>awareness := Some aw'\<rparr>))),
        (\<lambda>s. case channel s of
                None \<Rightarrow> (s, [])
              | Some ch \<Rightarrow> (s\<lparr>channel := None\<rparr>, [RemoveChannel ch]))] s"

text \<open>
  The constructor: the field initialisers, the awareness container when the option asks
  for one, then \<^verbatim>\<open>connect\<close>. \<open>uid\<close> is the result of \<^verbatim>\<open>crypto.randomUUID()\<close>.
\<close>

definition new_provider ::
  "string \<Rightarrow> 'doc \<Rightarrow> string \<Rightarrow> SupabaseProviderOptions \<Rightarrow> 'aw option
   \<Rightarrow> ('doc, 'aw) provider \<times> effect list" where
  "new_provider name d uid opts aw =
     connect
       \<lparr>channelName = name, doc = d, channel = None, status = Connecting, userId = uid,
        broadcastTimeout = None, pendingUpdates = [], options = opts, syncedPeers = {},
        awareness = aw, reconnectAttempts = 0, reconnectTimeout = None,
        shouldReconnect = True, docListening = False, awarenessListening = (aw \<noteq> None)\<rparr>"

subsection \<open>Events\<close>

text \<open>
  Everything runs on one task queue; between two tasks the provider is in a state of the
  record above. A task is a call of a public method, a channel callback, a change
  notification of the document or of the awareness container (carrying the new content
  of the container), or a timer firing. A timer fires only while it is pending.
\<close>

datatype ('doc, 'aw) event =
  CallConnect
| CallDestroy
| SubscribeCallback REALTIME_SUBSCRIBE_STATES "string option"
| OnStateVector StateVectorPayload
| OnUpdate RealtimeYPayload
| OnAwareness RealtimeYPayload
| DocUpdate 'doc bytes origin
| AwarenessUpdate 'aw "nat list" "nat list" "nat list" origin
| BroadcastTimerFires
| ReconnectTimerFires

definition step ::
  "('doc, 'aw) engine \<Rightarrow> int \<Rightarrow> ('doc, 'aw) event \<Rightarrow> ('doc, 'aw) action" where
  "step Y now ev s =
     (case ev of
        CallConnect \<Rightarrow> connect s
      | CallDestroy \<Rightarrow> destroy Y now s
      | SubscribeCallback st err \<Rightarrow> subscribe_callback Y now st err s
      | OnStateVector payload \<Rightarrow> handleStateVector Y now payload s
      | OnUpdate payload \<Rightarrow> handleRemoteUpdate Y payload s
      | OnAwareness payload \<Rightarrow> handleRemoteAwareness Y payload s
      | DocUpdate d upd orig \<Rightarrow>
          (if docListening s then handleDocUpdate now upd orig (s\<lparr>doc := d\<rparr>)
           else (s\<lparr>doc := d\<rparr>, []))
      | AwarenessUpdate aw added updated removed orig \<Rightarrow>
          (case awareness s of
             None \<Rightarrow> (s, [])
           | Some _ \<Rightarrow>
               (if awarenessListening s
                then handleAwarenessUpdate Y now added updated removed orig
                       (s\<lparr>awareness := Some aw\<rparr>)
                else (s\<lparr>awareness := Some aw\<rparr>, [])))
      | BroadcastTimerFires \<Rightarrow>
          (case broadcastTimeout s of
             Some (Pending d) \<Rightarrow> queueBroadcast_timer Y now s
           | _ \<Rightarrow> (s, []))
      | ReconnectTimerFires \<Rightarrow>
          (case reconnectTimeout s of
             Some (Pending d) \<Rightarrow> scheduleReconnect_timer (s\<lparr>reconnectTimeout := Some Fired\<rparr>)
           | _ \<Rightarrow> (s, [])))"

fun run ::
  "('doc, 'aw) engine \<Rightarrow> (int \<times> ('doc, 'aw) event) list \<Rightarrow> ('doc, 'aw) action" where
  "run Y [] s = (s, [])"
| "run Y ((now, ev) # evs) s =
     (case step Y now ev s of (s1, o1) \<Rightarrow> (case run Y evs s1 of (s2, o2) \<Rightarrow> (s2, o1 @ o2)))"

subsection \<open>Runs within one connection epoch\<close>

text \<open>
  A connection epoch ends when \<^verbatim>\<open>connect\<close> runs: on a call of the public method, or when
  the reconnect timer fires while pending and the provider still intends to reconnect.
\<close>

definition calls_connect :: "('doc, 'aw) event \<Rightarrow> ('doc, 'aw) provider \<Rightarrow> bool" where
  "calls_connect ev s =
     (case ev of
        CallConnect \<Rightarrow> True
      | ReconnectTimerFires \<Rightarrow>
          (case reconnectTimeout s of Some (Pending d) \<Rightarrow> shouldReconnect s | _ \<Rightarrow> False)
      | _ \<Rightarrow> False)"

fun same_epoch ::
  "('doc, 'aw) engine \<Rightarrow> (int \<times> ('doc, 'aw) event) list \<Rightarrow> ('doc, 'aw) provider \<Rightarrow> bool" where
  "same_epoch Y [] s = True"
| "same_epoch Y ((now, ev) # evs) s =
     (\<not> calls_connect ev s \<and> same_epoch Y evs (fst (step Y now ev s)))"

subsection \<open>Throttle windows\<close>

text \<open>
  The events of one throttle window: the flush timer does not fire among them and
  \<^verbatim>\<open>destroy\<close> is not called. Any other event may occur.
\<close>

fun in_window :: "(int \<times> ('doc, 'aw) event) list \<Rightarrow> bool" where
  "in_window [] = True"
| "in_window ((now, ev) # evs) =
     (ev \<noteq> CallDestroy \<and> ev \<noteq> BroadcastTimerFires \<and> in_window evs)"

text \<open>
  The update payloads of the local edits among some events, in order: the change
  notifications of the document whose origin is not \<^verbatim>\<open>'remote'\<close>.
\<close>

fun local_updates :: "(int \<times> ('doc, 'aw) event) list \<Rightarrow> bytes list" where
  "local_updates [] = []"
| "local_updates ((now, ev) # evs) =
     (case ev of
        DocUpdate d upd orig \<Rightarrow> (if orig = OriginRemote then [] else [upd])
      | _ \<Rightarrow> [])
     @ local_updates evs"

fun no_destroy :: "(int \<times> ('doc, 'aw) event) list \<Rightarrow> bool" where
  "no_destroy [] = True"
| "no_destroy ((now, ev) # evs) = (ev \<noteq> CallDestroy \<and> no_destroy evs)"

subsection \<open>Notions of the specification\<close>

text \<open>
  The status transitions that the specification names: connecting to connected,
  connected to disconnected and back, and disconnected to connecting on retry.
\<close>

definition spec_transition :: "Status \<Rightarrow> Status \<Rightarrow> bool" where
  "spec_transition a b =
     ((a = Connecting \<and> b = Connected) \<or> (a = Connected \<and> b = Disconnected)
      \<or> (a = Disconnected \<and> b = Connected) \<or> (a = Disconnected \<and> b = Connecting))"




text \<open>\<^verbatim>\<open>scheduleReconnect\<close> arms a timer when none of its three guards makes it return.\<close>

definition arms_reconnect :: "('doc, 'aw) provider \<Rightarrow> bool" where
  "arms_reconnect s =
     (autoReconnect (options s) \<noteq> Some False \<and> shouldReconnect s
      \<and> \<not> js_le (case maxReconnectAttempts (options s) of None \<Rightarrow> PosInf | Some n \<Rightarrow> n)
              (Num (real (reconnectAttempts s))))"

text \<open>A flush timer is armed when \<open>broadcastTimeout\<close> holds a pending handle.\<close>

definition flush_armed :: "('doc, 'aw) provider \<Rightarrow> bool" where
  "flush_armed s = (case broadcastTimeout s of Some (Pending d) \<Rightarrow> True | _ \<Rightarrow> False)"

subsection \<open>A small merge engine and provider for concrete runs\<close>

text \<open>
  The document of this engine is the list of the updates applied so far. An empty update
  is rejected before anything is applied; an update that ends in the byte 255 is cut
  short: the engine applies what precedes that byte and then throws. The state vector is
  the number of updates, the diff for a state vector the updates after that number, and
  merging concatenates.
\<close>

definition demo_engine :: "(bytes list, unit) engine" where
  "demo_engine =
     \<lparr>applyUpdate = (\<lambda>d u. if u = [] then (d, Some (IsError ''Unexpected end of array''))
                          else if last u = 255
                          then (d @ [butlast u], Some (IsError ''Unexpected end of array''))
                          else (d @ [u], None)),
      encodeStateVector = (\<lambda>d. [word_of_nat (length d)]),
      encodeStateAsUpdate = (\<lambda>d sv. case sv of [] \<Rightarrow> Inl (IsError ''Unexpected end of array'')
                                     | n # _ \<Rightarrow> Inr (concat (drop (unat n) d))),
      mergeUpdates = concat,
      clientID = (\<lambda>d. 1),
      applyAwarenessUpdate = (\<lambda>a u. (a, None)),
      encodeAwarenessUpdate = (\<lambda>a cs. []),
      awarenessClients = (\<lambda>a. []),
      removeAwarenessStates = (\<lambda>a cs. (a, []))\<rparr>"

definition demo_options :: "int option \<Rightarrow> int option \<Rightarrow> SupabaseProviderOptions" where
  "demo_options throttle delay =
     \<lparr>broadcastThrottleMs = map_option (\<lambda>i. Num (real_of_int i)) throttle,
      autoReconnect = None, maxReconnectAttempts = None,
      reconnectDelay = map_option (\<lambda>i. Num (real_of_int i)) delay,
      maxReconnectDelay = None\<rparr>"

definition demo_provider :: "int option \<Rightarrow> int option \<Rightarrow> (bytes list, unit) provider" where
  "demo_provider throttle delay =
     fst (new_provider ''test-channel'' [] ''me'' (demo_options throttle delay) None)"

section \<open>Properties of the transport encoding\<close>

lemma distinct_b64_alphabet: "distinct b64_alphabet"
  by (simp add: b64_alphabet_def)

lemma index_of_nth: "distinct xs \<Longrightarrow> n < length xs \<Longrightarrow> index_of (xs ! n) xs = Some n"
proof (induction xs arbitrary: n)
  case Nil
  then show ?case by simp
next
  case (Cons x xs)
  show ?case
  proof (cases n)
    case 0
    then show ?thesis by simp
  next
    case (Suc m)
    with Cons.prems have "xs ! m \<noteq> x" "m < length xs" "distinct xs" by auto
    with Cons.IH [of m] Suc show ?thesis by simp
  qed
qed

lemma length_b64_alphabet: "length b64_alphabet = 64"
  by (simp add: b64_alphabet_def)

lemma b64_index_char: "v < 64 \<Longrightarrow> b64_index (b64_char v) = Some v"
  unfolding b64_index_def b64_char_def
  by (rule index_of_nth) (simp_all add: distinct_b64_alphabet length_b64_alphabet)

lemma b64_char_in: "v < 64 \<Longrightarrow> b64_char v \<in> set b64_alphabet"
  by (simp add: b64_char_def length_b64_alphabet)

lemma b64_alphabet_not_pad: "c \<in> set b64_alphabet \<Longrightarrow> c \<noteq> CHR ''=''"
  by (auto simp: b64_alphabet_def)

lemma b64_alphabet_not_ws: "c \<in> set b64_alphabet \<Longrightarrow> \<not> ascii_whitespace c"
  by (auto simp: b64_alphabet_def ascii_whitespace_def char_of_def)

lemma pad_not_ws: "\<not> ascii_whitespace CHR ''=''"
  by (simp add: ascii_whitespace_def char_of_def)

lemma sextet_arith:
  fixes x y z :: nat
  assumes "x < 256" "y < 256" "z < 256"
  shows "(x div 4) * 4 + ((x mod 4) * 16 + y div 16) div 16 = x"
    and "(((x mod 4) * 16 + y div 16) mod 16) * 16 + ((y mod 16) * 4 + z div 64) div 4 = y"
    and "(((y mod 16) * 4 + z div 64) mod 4) * 64 + z mod 64 = z"
    and "x div 4 < 64" and "(x mod 4) * 16 + y div 16 < 64"
    and "(y mod 16) * 4 + z div 64 < 64" and "z mod 64 < 64"
proof -
  have y16: "y div 16 < 16" and z64: "z div 64 < 4" using assms by simp_all
  show "(x div 4) * 4 + ((x mod 4) * 16 + y div 16) div 16 = x"
    using y16 by simp
  show "(((x mod 4) * 16 + y div 16) mod 16) * 16 + ((y mod 16) * 4 + z div 64) div 4 = y"
    using y16 z64 by simp
  show "(((y mod 16) * 4 + z div 64) mod 4) * 64 + z mod 64 = z"
    using z64 by simp
  show "x div 4 < 64" using assms by simp
  have x4: "x mod 4 < 4" and y4: "y mod 16 < 16" by simp_all
  show "(x mod 4) * 16 + y div 16 < 64" using y16 x4 by linarith
  show "(y mod 16) * 4 + z div 64 < 64" using z64 y4 by linarith
  show "z mod 64 < 64" by simp
qed

lemma btoa_shape:
  "\<exists>vs pad. btoa s = map b64_char vs @ pad \<and> list_all (\<lambda>v. v < 64) vs
     \<and> (pad = [] \<or> pad = ''='' \<or> pad = ''=='') \<and> (length vs + length pad) mod 4 = 0
     \<and> decode_sextets vs = s"
proof (induction s rule: btoa.induct)
  case 1
  show ?case by (rule exI [of _ "[]"], rule exI [of _ "[]"]) simp
next
  case (2 a)
  define x :: nat where "x = of_char a"
  have x: "x < 256" by (simp add: x_def)
  have a: "char_of x = a" by (simp add: x_def)
  have "btoa [a] = map b64_char [x div 4, (x mod 4) * 16] @ ''==''"
    by (simp add: x_def Let_def)
  moreover have "list_all (\<lambda>v. v < 64) [x div 4, (x mod 4) * 16]"
    using sextet_arith(4,5) [of x 0 0] x by simp
  moreover have "decode_sextets [x div 4, (x mod 4) * 16] = [a]"
    using sextet_arith(1) [of x 0 0] x a by simp
  ultimately show ?case
    by (intro exI [of _ "[x div 4, (x mod 4) * 16]"] exI [of _ "''==''"]) simp
next
  case (3 a b)
  define x :: nat where "x = of_char a"
  define y :: nat where "y = of_char b"
  have x: "x < 256" and y: "y < 256" by (simp_all add: x_def y_def)
  have a: "char_of x = a" "char_of y = b" by (simp_all add: x_def y_def)
  let ?vs = "[x div 4, (x mod 4) * 16 + y div 16, (y mod 16) * 4]"
  have "btoa [a, b] = map b64_char ?vs @ ''=''"
    by (simp add: x_def y_def Let_def)
  moreover have "list_all (\<lambda>v. v < 64) ?vs"
    using sextet_arith(4,5,6) [of x y 0] x y by simp
  moreover have "decode_sextets ?vs = [a, b]"
    using sextet_arith(1,2) [of x y 0] x y a by simp
  ultimately show ?case
    by (intro exI [of _ ?vs] exI [of _ "''=''"]) simp
next
  case (4 a b c rest)
  define x :: nat where "x = of_char a"
  define y :: nat where "y = of_char b"
  define z :: nat where "z = of_char c"
  have x: "x < 256" and y: "y < 256" and z: "z < 256" by (simp_all add: x_def y_def z_def)
  have a: "char_of x = a" "char_of y = b" "char_of z = c" by (simp_all add: x_def y_def z_def)
  have "\<exists>vs pad. btoa rest = map b64_char vs @ pad \<and> list_all (\<lambda>v. v < 64) vs
     \<and> (pad = [] \<or> pad = ''='' \<or> pad = ''=='') \<and> (length vs + length pad) mod 4 = 0
     \<and> decode_sextets vs = rest"
    by (rule 4 [OF refl refl refl])
  then obtain vs pad where IH0: "btoa rest = map b64_char vs @ pad \<and> list_all (\<lambda>v. v < 64) vs
     \<and> (pad = [] \<or> pad = ''='' \<or> pad = ''=='') \<and> (length vs + length pad) mod 4 = 0
     \<and> decode_sextets vs = rest"
    by (elim exE)
  note IH = IH0 [THEN conjunct1] IH0 [THEN conjunct2, THEN conjunct1]
    IH0 [THEN conjunct2, THEN conjunct2, THEN conjunct1]
    IH0 [THEN conjunct2, THEN conjunct2, THEN conjunct2, THEN conjunct1]
    IH0 [THEN conjunct2, THEN conjunct2, THEN conjunct2, THEN conjunct2]
  let ?g = "[x div 4, (x mod 4) * 16 + y div 16, (y mod 16) * 4 + z div 64, z mod 64]"
  have "btoa (a # b # c # rest) = map b64_char (?g @ vs) @ pad"
    by (simp add: x_def y_def z_def IH(1) Let_def)
  moreover have "list_all (\<lambda>v. v < 64) (?g @ vs)"
    using sextet_arith(4,5,6,7) [OF x y z] IH(2) by simp
  moreover have "decode_sextets (?g @ vs) = a # b # c # rest"
    using sextet_arith(1,2,3) [OF x y z] a IH(5) by simp
  moreover have "(length (?g @ vs) + length pad) mod 4 = 0"
    using IH(4) by simp
  ultimately show ?case
    using IH(3) by (intro exI [of _ "?g @ vs"] exI [of _ pad]) simp
qed

lemma b64_chars_plain:
  assumes "list_all (\<lambda>v. v < 64) vs"
  shows "list_all (\<lambda>c. c \<noteq> CHR ''='' \<and> \<not> ascii_whitespace c) (map b64_char vs)"
  using assms
  by (induction vs) (simp_all add: b64_char_in b64_alphabet_not_pad b64_alphabet_not_ws)

lemma those_b64_index:
  "list_all (\<lambda>v. v < 64) vs \<Longrightarrow> those (map b64_index (map b64_char vs)) = Some vs"
  by (induction vs) (simp_all add: b64_index_char)

lemma filter_plain:
  "list_all (\<lambda>c. c \<noteq> CHR ''='' \<and> \<not> ascii_whitespace c) m \<Longrightarrow>
   filter (\<lambda>c. \<not> ascii_whitespace c) m = m"
  by (induction m) simp_all

lemma last_plain:
  "list_all (\<lambda>c. c \<noteq> CHR ''='' \<and> \<not> ascii_whitespace c) m \<Longrightarrow> m \<noteq> [] \<Longrightarrow>
   last m \<noteq> CHR ''=''"
  by (induction m) (simp_all split: if_splits)

lemma strip_padding_0:
  assumes "list_all (\<lambda>c. c \<noteq> CHR ''='' \<and> \<not> ascii_whitespace c) m"
  shows "strip_padding m = m"
proof (cases "m = []")
  case True
  then show ?thesis by (simp add: strip_padding_def)
next
  case False
  with last_plain [OF assms] show ?thesis by (simp add: strip_padding_def)
qed

lemma strip_padding_1:
  assumes "list_all (\<lambda>c. c \<noteq> CHR ''='' \<and> \<not> ascii_whitespace c) m"
    and "(length m + 1) mod 4 = 0"
  shows "strip_padding (m @ ''='') = m"
proof (cases "m = []")
  case True
  with assms(2) show ?thesis by simp
next
  case False
  with last_plain [OF assms(1)] assms(2) show ?thesis
    by (simp add: strip_padding_def butlast_append)
qed

lemma strip_padding_2:
  assumes "(length m + 2) mod 4 = 0"
  shows "strip_padding (m @ ''=='') = m"
proof -
  have "butlast (m @ ''=='') = m @ ''=''" by (simp add: butlast_append)
  moreover have "last (m @ ''=='') = CHR ''=''" by simp
  ultimately show ?thesis
    using assms by (simp add: strip_padding_def butlast_append)
qed

lemma atob_btoa: "atob (btoa s) = Inr s"
proof -
  obtain vs pad where sh0: "btoa s = map b64_char vs @ pad \<and> list_all (\<lambda>v. v < 64) vs
     \<and> (pad = [] \<or> pad = ''='' \<or> pad = ''=='') \<and> (length vs + length pad) mod 4 = 0
     \<and> decode_sextets vs = s"
    using btoa_shape [of s] by (elim exE)
  note sh = sh0 [THEN conjunct1] sh0 [THEN conjunct2, THEN conjunct1]
    sh0 [THEN conjunct2, THEN conjunct2, THEN conjunct1]
    sh0 [THEN conjunct2, THEN conjunct2, THEN conjunct2, THEN conjunct1]
    sh0 [THEN conjunct2, THEN conjunct2, THEN conjunct2, THEN conjunct2]
  let ?m = "map b64_char vs"
  have plain: "list_all (\<lambda>c. c \<noteq> CHR ''='' \<and> \<not> ascii_whitespace c) ?m"
    by (rule b64_chars_plain [OF sh(2)])
  have flt: "filter (\<lambda>c. \<not> ascii_whitespace c) (btoa s) = ?m @ pad"
    using sh(3) filter_plain [OF plain] by (auto simp: sh(1) pad_not_ws)
  have strip: "strip_padding (?m @ pad) = ?m"
    using sh(3) sh(4) strip_padding_0 [OF plain] strip_padding_1 [OF plain]
      strip_padding_2 [of ?m]
    by auto
  have "length pad \<le> 2" using sh(3) by auto
  with sh(4) have "length vs mod 4 \<noteq> 1"
    by presburger
  then have len: "(length ?m mod 4 = 1) = False"
    by simp
  have "atob (btoa s) = (case those (map b64_index ?m) of
          None \<Rightarrow> Inl (IsError ''InvalidCharacterError'')
        | Some vs \<Rightarrow> Inr (decode_sextets vs))"
    unfolding atob_def Let_def flt strip len by (rule if_False)
  also have "\<dots> = Inr (decode_sextets vs)"
    by (simp only: those_b64_index [OF sh(2)] option.case)
  finally show ?thesis
    by (simp only: sh(5))
qed

lemma encodeUpdate_loop_eq:
  "encodeUpdate_loop update i binary = binary @ map (\<lambda>b. char_of (unat b)) (drop i update)"
proof (induction update i binary rule: encodeUpdate_loop.induct)
  case (1 update i binary)
  show ?case
  proof (cases "i < length update")
    case False
    then show ?thesis by (simp add: encodeUpdate_loop.simps [of update i])
  next
    case True
    let ?f = "\<lambda>b::8 word. char_of (unat b)"
    let ?chunk = "subarray update i (i + chunkSize)"
    have "drop (i + chunkSize) update = drop chunkSize (drop i update)"
      by (simp add: add.commute)
    then have split: "?chunk @ drop (i + chunkSize) update = drop i update"
      by (simp only: subarray_def add_diff_cancel_left' append_take_drop_id)
    have "encodeUpdate_loop update i binary
        = encodeUpdate_loop update (i + chunkSize) (binary @ fromCharCode ?chunk)"
      using True by (simp add: encodeUpdate_loop.simps [of update i])
    also have "\<dots> = (binary @ fromCharCode ?chunk) @ map ?f (drop (i + chunkSize) update)"
      by (rule "1.IH" [OF True])
    also have "\<dots> = binary @ map ?f (?chunk @ drop (i + chunkSize) update)"
      by (simp only: fromCharCode_def map_append append_assoc)
    finally show ?thesis by (simp only: split)
  qed
qed

lemma encodeUpdate_eq: "encodeUpdate update = btoa (map (\<lambda>b. char_of (unat b)) update)"
  by (simp add: encodeUpdate_def encodeUpdate_loop_eq)

lemma decodeUpdate_loop_eq:
  "length bs = length binary \<Longrightarrow> i \<le> length binary \<Longrightarrow>
   decodeUpdate_loop binary i bs
     = take i bs @ map (\<lambda>c. word_of_nat (of_char c)) (drop i binary)"
proof (induction binary i bs rule: decodeUpdate_loop.induct)
  case (1 binary i bs)
  show ?case
  proof (cases "i < length binary")
    case False
    with "1.prems" show ?thesis by (subst decodeUpdate_loop.simps) simp
  next
    case True
    let ?v = "word_of_nat (of_char (binary ! i)) :: 8 word"
    have "decodeUpdate_loop binary i bs = decodeUpdate_loop binary (i + 1) (bs[i := ?v])"
      using True by (simp add: decodeUpdate_loop.simps [of binary i])
    also have "\<dots> = take (i + 1) (bs[i := ?v])
        @ map (\<lambda>c. word_of_nat (of_char c)) (drop (i + 1) binary)"
      using "1.IH" [OF True] "1.prems" True by simp
    also have "take (i + 1) (bs[i := ?v]) = take i bs @ [?v]"
      using True "1.prems" by (simp add: take_Suc_conv_app_nth)
    also have "(take i bs @ [?v]) @ map (\<lambda>c. word_of_nat (of_char c)) (drop (i + 1) binary)
        = take i bs @ map (\<lambda>c. word_of_nat (of_char c)) (drop i binary)"
      using True by (simp add: Cons_nth_drop_Suc [symmetric])
    finally show ?thesis .
  qed
qed

lemma byte_char_roundtrip: "word_of_nat (of_char (char_of (unat (b :: 8 word)))) = b"
proof -
  have "unat b < 256" using unsigned_less [of b, where ?'a = nat] by simp
  then show ?thesis by simp
qed

lemma decode_encode: "decodeUpdate (encodeUpdate u) = Inr u"
proof -
  let ?binary = "map (\<lambda>b. char_of (unat b)) u"
  have "decodeUpdate_loop ?binary 0 (replicate (length ?binary) 0)
      = map (\<lambda>c. word_of_nat (of_char c)) ?binary"
    using decodeUpdate_loop_eq [of "replicate (length ?binary) 0" ?binary 0] by simp
  also have "\<dots> = u"
    by (simp only: map_map o_def byte_char_roundtrip map_ident)
  finally show ?thesis
    by (simp add: decodeUpdate_def encodeUpdate_eq atob_btoa)
qed

text \<open>
  C9: for every byte array \<open>u\<close>, of any length (the empty array and arrays longer than
  the chunk size of 32768 bytes included), decoding the encoding of \<open>u\<close> succeeds and
  gives back \<open>u\<close>.
\<close>

theorem decodeUpdate_encodeUpdate: "decodeUpdate (encodeUpdate u) = Inr u"
  by (rule decode_encode)

section \<open>Properties of the provider\<close>

subsection \<open>Frame lemmas\<close>

lemmas method_defs = emit_def setStatus_def broadcastUpdate_def queueBroadcast_timer_def
  queueBroadcast_def handleDocUpdate_def handleRemoteUpdate_def broadcastAwarenessUpdate_def
  handleAwarenessUpdate_def handleRemoteAwareness_def sendStateVector_def handleStateVector_def
  connect_def scheduleReconnect_def scheduleReconnect_timer_def subscribe_callback_def
  destroy_def

lemma step_userId: "userId (fst (step Y now ev s)) = userId s"
  by (cases ev)
    (auto simp: step_def method_defs Let_def
      split: option.splits sum.splits timeout.splits REALTIME_SUBSCRIBE_STATES.splits prod.splits if_splits)

lemma step_syncedPeers:
  "\<not> calls_connect ev s \<Longrightarrow> p \<in> syncedPeers s \<Longrightarrow> p \<in> syncedPeers (fst (step Y now ev s))"
  by (cases ev)
    (auto simp: step_def method_defs Let_def calls_connect_def
      split: option.splits sum.splits timeout.splits REALTIME_SUBSCRIBE_STATES.splits prod.splits if_splits)

lemma decodeUpdate_malformed:
  "decodeUpdate ''invalid-base64-!!!'' = Inl (IsError ''InvalidCharacterError'')"
  by (simp add: decodeUpdate_def atob_def strip_padding_def ascii_whitespace_def b64_index_def
      b64_alphabet_def char_of_def Let_def)

lemma handleStateVector_ignored:
  "sv_user m = userId s \<or> sv_user m \<in> syncedPeers s \<Longrightarrow> handleStateVector Y t m s = (s, [])"
  by (auto simp: handleStateVector_def)

lemma handleStateVector_marks:
  "sv_user m \<noteq> userId s \<Longrightarrow> sv_user m \<in> syncedPeers (fst (handleStateVector Y t m s))"
  by (auto simp: handleStateVector_def method_defs Let_def split: sum.splits option.splits)

lemma handleStateVector_userId: "userId (fst (handleStateVector Y t m s)) = userId s"
  using step_userId [of Y t "OnStateVector m" s] by (simp add: step_def)

lemma fst_run_Cons:
  "fst (run Y ((now, ev) # evs) s) = fst (run Y evs (fst (step Y now ev s)))"
  by (simp add: case_prod_unfold)

lemma snd_run_Cons:
  "snd (run Y ((now, ev) # evs) s)
     = snd (step Y now ev s) @ snd (run Y evs (fst (step Y now ev s)))"
  by (simp add: case_prod_unfold)

lemma run_userId: "userId (fst (run Y evs s)) = userId s"
proof (induction evs arbitrary: s)
  case Nil
  show ?case by simp
next
  case (Cons a evs)
  obtain now ev where a: "a = (now, ev)" by (cases a)
  show ?case
    using Cons.IH [of "fst (step Y now ev s)"] step_userId [of Y now ev s]
    by (simp only: a fst_run_Cons)
qed

lemma run_syncedPeers:
  "same_epoch Y evs s \<Longrightarrow> p \<in> syncedPeers s \<Longrightarrow> p \<in> syncedPeers (fst (run Y evs s))"
proof (induction evs arbitrary: s)
  case Nil
  then show ?case by simp
next
  case (Cons a evs)
  obtain now ev where a: "a = (now, ev)" by (cases a)
  from Cons.prems a have nc: "\<not> calls_connect ev s"
    and se: "same_epoch Y evs (fst (step Y now ev s))" by simp_all
  have "p \<in> syncedPeers (fst (step Y now ev s))"
    by (rule step_syncedPeers [OF nc Cons.prems(2)])
  from Cons.IH [OF se this] show ?case
    by (simp only: a fst_run_Cons)
qed

lemma later_state_vector_ignored:
  assumes "sv_user m1 = p" and "sv_user m2 = p" and "p \<noteq> userId s"
    and "same_epoch Y evs (fst (handleStateVector Y t1 m1 s))"
  shows "handleStateVector Y t2 m2 (fst (run Y evs (fst (handleStateVector Y t1 m1 s))))
         = (fst (run Y evs (fst (handleStateVector Y t1 m1 s))), [])"
proof -
  let ?s1 = "fst (handleStateVector Y t1 m1 s)"
  have "p \<in> syncedPeers ?s1"
    using handleStateVector_marks [of m1 s Y t1] assms(1,3) by simp
  then have "p \<in> syncedPeers (fst (run Y evs ?s1))"
    by (rule run_syncedPeers [OF assms(4)])
  then show ?thesis
    using assms(2) by (simp add: handleStateVector_ignored)
qed

lemma handleStateVector_effects_length: "length (snd (handleStateVector Y t m s)) \<le> 2"
  by (auto simp: handleStateVector_def method_defs Let_def split: sum.splits option.splits)

subsection \<open>The state-vector handshake\<close>

text \<open>
  C1: let a state-vector message from a peer \<open>p\<close> other than the provider's own
  \<open>userId\<close> be delivered, then any events that stay within the connection epoch, then a
  second state-vector message from \<open>p\<close>. The second delivery returns at the guard: it
  leaves the state as it is and has no effect at all, whatever the merge engine is (so no
  diff is computed and nothing is sent). The first delivery has at most two effects, the
  diff broadcast and the state-vector reply.
\<close>

theorem anti_ping_pong:
  assumes "sv_user m1 = p" and "sv_user m2 = p" and "p \<noteq> userId s"
    and "same_epoch Y evs (fst (handleStateVector Y t1 m1 s))"
  shows "handleStateVector Y t2 m2 (fst (run Y evs (fst (handleStateVector Y t1 m1 s))))
           = (fst (run Y evs (fst (handleStateVector Y t1 m1 s))), [])
         \<and> length (snd (handleStateVector Y t1 m1 s)) \<le> 2"
  using later_state_vector_ignored [OF assms] handleStateVector_effects_length by blast

lemma demo_provider_simps:
  "userId (demo_provider th dl) = ''me''"
  "syncedPeers (demo_provider th dl) = {}"
  "channel (demo_provider th dl) = Some ''test-channel''"
  "doc (demo_provider th dl) = []"
  "status (demo_provider th dl) = Connecting"
  "pendingUpdates (demo_provider th dl) = []"
  "broadcastTimeout (demo_provider th dl) = None"
  "docListening (demo_provider th dl) = True"
  "awareness (demo_provider th dl) = None"
  "options (demo_provider th dl) = demo_options th dl"
  "reconnectAttempts (demo_provider th dl) = 0"
  "reconnectTimeout (demo_provider th dl) = None"
  "shouldReconnect (demo_provider th dl) = True"
  by (simp_all add: demo_provider_def new_provider_def connect_def)

theorem anti_ping_pong_witness:
  "sv_user (StateVectorPayload (encodeUpdate [0]) ''peer-2'' 10) = ''peer-2''
   \<and> ''peer-2'' \<noteq> userId (demo_provider None None)
   \<and> same_epoch demo_engine [(20, DocUpdate [[7]] [7] OriginOther)]
        (fst (handleStateVector demo_engine 10
               (StateVectorPayload (encodeUpdate [0]) ''peer-2'' 10) (demo_provider None None)))
   \<and> handleStateVector demo_engine 30 (StateVectorPayload (encodeUpdate [0]) ''peer-2'' 10)
        (fst (run demo_engine [(20, DocUpdate [[7]] [7] OriginOther)]
           (fst (handleStateVector demo_engine 10
                  (StateVectorPayload (encodeUpdate [0]) ''peer-2'' 10) (demo_provider None None)))))
       = (fst (run demo_engine [(20, DocUpdate [[7]] [7] OriginOther)]
           (fst (handleStateVector demo_engine 10
                  (StateVectorPayload (encodeUpdate [0]) ''peer-2'' 10) (demo_provider None None)))), [])
   \<and> snd (handleStateVector demo_engine 10
               (StateVectorPayload (encodeUpdate [0]) ''peer-2'' 10) (demo_provider None None))
       = [Send STATE_VECTOR_EVENT
            (SVPayload (StateVectorPayload (encodeUpdate [0]) ''me'' 10))]"
proof -
  let ?m = "StateVectorPayload (encodeUpdate [0]) ''peer-2'' 10"
  let ?s = "demo_provider None None :: (bytes list, unit) provider"
  let ?evs = "[(20, DocUpdate [[7]] [7] OriginOther)] :: (int \<times> (bytes list, unit) event) list"
  have h1: "sv_user ?m = ''peer-2''" by simp
  have h3: "''peer-2'' \<noteq> userId ?s" by (simp add: demo_provider_simps)
  have h4: "same_epoch demo_engine ?evs (fst (handleStateVector demo_engine 10 ?m ?s))"
    by (simp add: calls_connect_def)
  have eff: "snd (handleStateVector demo_engine 10 ?m ?s)
       = [Send STATE_VECTOR_EVENT (SVPayload (StateVectorPayload (encodeUpdate [0]) ''me'' 10))]"
    by (simp add: handleStateVector_def demo_provider_simps decode_encode demo_engine_def
        sendStateVector_def Let_def)
  show ?thesis
    using anti_ping_pong [OF h1 h1 h3 h4, of 30] h1 h3 h4 eff by simp
qed

lemma decodeUpdate_corrupted:
  "decodeUpdate ''corrupted-data-!!!'' = Inl (IsError ''InvalidCharacterError'')"
  by (simp add: decodeUpdate_def atob_def strip_padding_def ascii_whitespace_def b64_index_def
      b64_alphabet_def char_of_def Let_def)

text \<open>
  C10: \<^verbatim>\<open>handleStateVector\<close> adds the sender to the Synced-Peer Set before it decodes the
  payload. For a state-vector message from a peer \<open>p\<close> other than the provider itself
  whose payload fails to decode, \<open>p\<close> is in the set afterwards (the only effect being
  the \<open>error\<close> event when \<open>p\<close> was not yet in it), every later state-vector message from
  \<open>p\<close> in the same epoch, well-formed or not, is ignored, and the next \<^verbatim>\<open>connect\<close>
  empties the set.
\<close>

theorem malformed_state_vector_marks_synced:
  assumes "sv_user m = p" and "p \<noteq> userId s"
    and "decodeUpdate (sv_stateVector m) = Inl e"
    and "sv_user m2 = p"
    and "same_epoch Y evs (fst (handleStateVector Y t m s))"
  shows "p \<in> syncedPeers (fst (handleStateVector Y t m s))
         \<and> handleStateVector Y t m s
             = (if p \<in> syncedPeers s then (s, [])
                else (s\<lparr>syncedPeers := insert p (syncedPeers s)\<rparr>,
                      [Emit (EvError (caught e ''Failed to handle state vector''))]))
         \<and> handleStateVector Y t2 m2 (fst (run Y evs (fst (handleStateVector Y t m s))))
             = (fst (run Y evs (fst (handleStateVector Y t m s))), [])
         \<and> syncedPeers (fst (connect (fst (run Y evs (fst (handleStateVector Y t m s)))))) = {}"
proof -
  have "p \<in> syncedPeers (fst (handleStateVector Y t m s))"
    using handleStateVector_marks [of m s Y t] assms(1,2) by simp
  moreover have "handleStateVector Y t m s
             = (if p \<in> syncedPeers s then (s, [])
                else (s\<lparr>syncedPeers := insert p (syncedPeers s)\<rparr>,
                      [Emit (EvError (caught e ''Failed to handle state vector''))]))"
    using assms(1,2,3) by (simp add: handleStateVector_def emit_def Let_def)
  moreover have "handleStateVector Y t2 m2 (fst (run Y evs (fst (handleStateVector Y t m s))))
             = (fst (run Y evs (fst (handleStateVector Y t m s))), [])"
    by (rule later_state_vector_ignored [OF assms(1) assms(4) assms(2) assms(5)])
  moreover have
    "syncedPeers (fst (connect (fst (run Y evs (fst (handleStateVector Y t m s)))))) = {}"
    by (simp add: connect_def)
  ultimately show ?thesis by blast
qed


theorem malformed_state_vector_marks_synced_witness:
  "sv_user (StateVectorPayload ''corrupted-data-!!!'' ''other-peer'' 10) = ''other-peer''
   \<and> ''other-peer'' \<noteq> userId (demo_provider None None)
   \<and> decodeUpdate (sv_stateVector (StateVectorPayload ''corrupted-data-!!!'' ''other-peer'' 10))
       = Inl (IsError ''InvalidCharacterError'')
   \<and> sv_user (StateVectorPayload (encodeUpdate [0]) ''other-peer'' 30) = ''other-peer''
   \<and> same_epoch demo_engine [(20, SubscribeCallback SUBSCRIBED None)]
        (fst (handleStateVector demo_engine 10
               (StateVectorPayload ''corrupted-data-!!!'' ''other-peer'' 10)
               (demo_provider None None)))
   \<and> ''other-peer'' \<in> syncedPeers (fst (handleStateVector demo_engine 10
               (StateVectorPayload ''corrupted-data-!!!'' ''other-peer'' 10)
               (demo_provider None None)))
   \<and> snd (handleStateVector demo_engine 10
               (StateVectorPayload ''corrupted-data-!!!'' ''other-peer'' 10)
               (demo_provider None None))
       = [Emit (EvError ''InvalidCharacterError'')]
   \<and> snd (handleStateVector demo_engine 30 (StateVectorPayload (encodeUpdate [0]) ''other-peer'' 30)
        (fst (run demo_engine [(20, SubscribeCallback SUBSCRIBED None)]
           (fst (handleStateVector demo_engine 10
                  (StateVectorPayload ''corrupted-data-!!!'' ''other-peer'' 10)
                  (demo_provider None None)))))) = []"
proof -
  let ?m = "StateVectorPayload ''corrupted-data-!!!'' ''other-peer'' 10"
  let ?m2 = "StateVectorPayload (encodeUpdate [0]) ''other-peer'' 30"
  let ?s = "demo_provider None None :: (bytes list, unit) provider"
  let ?evs = "[(20, SubscribeCallback SUBSCRIBED None)]
                :: (int \<times> (bytes list, unit) event) list"
  have h1: "sv_user ?m = ''other-peer''" and h4: "sv_user ?m2 = ''other-peer''" by simp_all
  have h2: "''other-peer'' \<noteq> userId ?s" by (simp add: demo_provider_simps)
  have h3: "decodeUpdate (sv_stateVector ?m) = Inl (IsError ''InvalidCharacterError'')"
    by (simp add: decodeUpdate_corrupted)
  have h5: "same_epoch demo_engine ?evs (fst (handleStateVector demo_engine 10 ?m ?s))"
    by (simp add: calls_connect_def)
  note T = malformed_state_vector_marks_synced [OF h1 h2 h3 h4 h5, of 30]
  have c1: "''other-peer'' \<in> syncedPeers (fst (handleStateVector demo_engine 10 ?m ?s))"
    by (rule T [THEN conjunct1])
  have c2: "snd (handleStateVector demo_engine 10 ?m ?s)
       = [Emit (EvError ''InvalidCharacterError'')]"
    using T [THEN conjunct2, THEN conjunct1] by (simp add: demo_provider_simps caught_def)
  have c3: "snd (handleStateVector demo_engine 30 ?m2
        (fst (run demo_engine ?evs (fst (handleStateVector demo_engine 10 ?m ?s))))) = []"
    using T [THEN conjunct2, THEN conjunct2, THEN conjunct1] by (simp only: snd_conv)
  show ?thesis
    by (rule conjI [OF h1 conjI [OF h2 conjI [OF h3 conjI [OF h4 conjI [OF h5
          conjI [OF c1 conjI [OF c2 c3]]]]]]])
qed

subsection \<open>Remote updates\<close>

text \<open>
  C3: an update-topic or awareness-topic message whose sender is the provider's own
  \<open>userId\<close> is dropped by its handler: the state (document and awareness container
  included) is unchanged and there is no effect, so neither \<open>message\<close> nor \<open>awareness\<close> is
  emitted.
\<close>

theorem self_filter:
  assumes "p_user payload = userId s"
  shows "handleRemoteUpdate Y payload s = (s, [])
         \<and> handleRemoteAwareness Y payload s = (s, [])
         \<and> step Y now (OnUpdate payload) s = (s, [])
         \<and> step Y now (OnAwareness payload) s = (s, [])"
  using assms
  by (simp add: handleRemoteUpdate_def handleRemoteAwareness_def step_def split: option.splits)

theorem self_filter_witness:
  "p_user (RealtimeYPayload (encodeUpdate [1, 2, 3]) ''me'' 5) = userId (demo_provider None None)
   \<and> handleRemoteUpdate demo_engine (RealtimeYPayload (encodeUpdate [1, 2, 3]) ''me'' 5)
         (demo_provider None None) = (demo_provider None None, [])
   \<and> handleRemoteAwareness demo_engine (RealtimeYPayload (encodeUpdate [1, 2, 3]) ''me'' 5)
         (demo_provider None None) = (demo_provider None None, [])
   \<and> step demo_engine 6 (OnUpdate (RealtimeYPayload (encodeUpdate [1, 2, 3]) ''me'' 5))
         (demo_provider None None) = (demo_provider None None, [])
   \<and> step demo_engine 6 (OnAwareness (RealtimeYPayload (encodeUpdate [1, 2, 3]) ''me'' 5))
         (demo_provider None None) = (demo_provider None None, [])"
proof -
  have h: "p_user (RealtimeYPayload (encodeUpdate [1, 2, 3]) ''me'' 5)
           = userId (demo_provider None None :: (bytes list, unit) provider)"
    by (simp add: demo_provider_simps)
  show ?thesis
    using self_filter [OF h, of demo_engine 6] h by simp
qed

text \<open>
  The claim C8 as stated fails for a failure of the merge engine: the payload below
  decodes, the engine applies part of the update and then throws, and the handler, which
  has no way of undoing the change, leaves the document changed and emits \<open>error\<close>.
\<close>

theorem remote_update_failure_counterexample:
  "p_user (RealtimeYPayload (encodeUpdate [104, 255]) ''other-peer'' 5)
     \<noteq> userId (demo_provider None None)
   \<and> decodeUpdate (p_update (RealtimeYPayload (encodeUpdate [104, 255]) ''other-peer'' 5))
       = Inr [104, 255]
   \<and> applyUpdate demo_engine (doc (demo_provider None None)) [104, 255]
       = ([[104]], Some (IsError ''Unexpected end of array''))
   \<and> snd (handleRemoteUpdate demo_engine
             (RealtimeYPayload (encodeUpdate [104, 255]) ''other-peer'' 5)
             (demo_provider None None))
       = [Emit (EvError ''Unexpected end of array'')]
   \<and> doc (demo_provider None None) = []
   \<and> doc (fst (handleRemoteUpdate demo_engine
             (RealtimeYPayload (encodeUpdate [104, 255]) ''other-peer'' 5)
             (demo_provider None None)))
       = [[104]]"
  by (simp add: demo_provider_simps handleRemoteUpdate_def decode_encode demo_engine_def
      emit_def caught_def)

text \<open>
  C8, amended: for an update-topic message from another sender, if the payload fails to
  decode, the handler returns with the state unchanged (the document included) and
  exactly one effect, the \<open>error\<close> event. If the payload decodes and the merge engine
  throws while applying it, the handler returns with exactly one effect, the \<open>error\<close>
  event, and the document is what the engine left behind; nothing else of the state
  changes. In both cases the run goes on with the events that follow.
\<close>

theorem remote_update_failure:
  assumes "p_user payload \<noteq> userId s"
  shows "(decodeUpdate (p_update payload) = Inl e
          \<longrightarrow> handleRemoteUpdate Y payload s
              = (s, [Emit (EvError (caught e ''Failed to apply remote update''))]))
       \<and> (decodeUpdate (p_update payload) = Inr upd \<and> applyUpdate Y (doc s) upd = (d, Some e)
          \<longrightarrow> handleRemoteUpdate Y payload s
              = (s\<lparr>doc := d\<rparr>, [Emit (EvError (caught e ''Failed to apply remote update''))]))
       \<and> run Y ((now, OnUpdate payload) # evs) s
           = (fst (run Y evs (fst (handleRemoteUpdate Y payload s))),
              snd (handleRemoteUpdate Y payload s)
                @ snd (run Y evs (fst (handleRemoteUpdate Y payload s))))"
proof (intro conjI impI)
  assume "decodeUpdate (p_update payload) = Inl e"
  with assms show "handleRemoteUpdate Y payload s
      = (s, [Emit (EvError (caught e ''Failed to apply remote update''))])"
    by (simp add: handleRemoteUpdate_def emit_def)
next
  assume "decodeUpdate (p_update payload) = Inr upd \<and> applyUpdate Y (doc s) upd = (d, Some e)"
  with assms show "handleRemoteUpdate Y payload s
      = (s\<lparr>doc := d\<rparr>, [Emit (EvError (caught e ''Failed to apply remote update''))])"
    by (simp add: handleRemoteUpdate_def emit_def)
next
  show "run Y ((now, OnUpdate payload) # evs) s
           = (fst (run Y evs (fst (handleRemoteUpdate Y payload s))),
              snd (handleRemoteUpdate Y payload s)
                @ snd (run Y evs (fst (handleRemoteUpdate Y payload s))))"
    by (simp add: step_def case_prod_unfold)
qed

theorem remote_update_failure_witness:
  "p_user (RealtimeYPayload ''invalid-base64-!!!'' ''other-peer'' 5)
     \<noteq> userId (demo_provider None None)
   \<and> decodeUpdate (p_update (RealtimeYPayload ''invalid-base64-!!!'' ''other-peer'' 5))
       = Inl (IsError ''InvalidCharacterError'')
   \<and> handleRemoteUpdate demo_engine (RealtimeYPayload ''invalid-base64-!!!'' ''other-peer'' 5)
         (demo_provider None None)
       = (demo_provider None None, [Emit (EvError ''InvalidCharacterError'')])
   \<and> p_user (RealtimeYPayload (encodeUpdate [104, 255]) ''other-peer'' 5)
     \<noteq> userId (demo_provider None None)
   \<and> decodeUpdate (p_update (RealtimeYPayload (encodeUpdate [104, 255]) ''other-peer'' 5))
       = Inr [104, 255]
   \<and> applyUpdate demo_engine (doc (demo_provider None None)) [104, 255]
       = ([[104]], Some (IsError ''Unexpected end of array''))
   \<and> handleRemoteUpdate demo_engine (RealtimeYPayload (encodeUpdate [104, 255]) ''other-peer'' 5)
         (demo_provider None None)
       = ((demo_provider None None)\<lparr>doc := [[104]]\<rparr>,
          [Emit (EvError ''Unexpected end of array'')])"
proof -
  let ?s = "demo_provider None None :: (bytes list, unit) provider"
  let ?p1 = "RealtimeYPayload ''invalid-base64-!!!'' ''other-peer'' 5"
  let ?p2 = "RealtimeYPayload (encodeUpdate [104, 255]) ''other-peer'' 5"
  have u1: "p_user ?p1 \<noteq> userId ?s" and u2: "p_user ?p2 \<noteq> userId ?s"
    by (simp_all add: demo_provider_simps)
  have d1: "decodeUpdate (p_update ?p1) = Inl (IsError ''InvalidCharacterError'')"
    by (simp add: decodeUpdate_malformed)
  have d2: "decodeUpdate (p_update ?p2) = Inr [104, 255]"
    by (simp add: decode_encode)
  have a2: "applyUpdate demo_engine (doc ?s) [104, 255]
      = ([[104]], Some (IsError ''Unexpected end of array''))"
    by (simp add: demo_engine_def demo_provider_simps)
  have c1: "handleRemoteUpdate demo_engine ?p1 ?s
      = (?s, [Emit (EvError ''InvalidCharacterError'')])"
    using remote_update_failure [OF u1, where Y = demo_engine
        and e = "IsError ''InvalidCharacterError''", THEN conjunct1] d1
    by (simp add: caught_def)
  have c2: "handleRemoteUpdate demo_engine ?p2 ?s
      = (?s\<lparr>doc := [[104]]\<rparr>, [Emit (EvError ''Unexpected end of array'')])"
    using remote_update_failure [OF u2, where Y = demo_engine and upd = "[104, 255]"
        and d = "[[104]]" and e = "IsError ''Unexpected end of array''",
        THEN conjunct2, THEN conjunct1] d2 a2
    by (simp add: caught_def)
  show ?thesis
    by (rule conjI [OF u1 conjI [OF d1 conjI [OF c1 conjI [OF u2 conjI [OF d2
          conjI [OF a2 c2]]]]]])
qed

subsection \<open>The state-vector reply\<close>

text \<open>
  The claim C6 as stated fails: the first state-vector message of an epoch from another
  peer, with a payload that does not decode, is answered by the \<open>error\<close> event alone; no
  state vector is sent, although the provider holds a channel.
\<close>

theorem state_vector_reply_counterexample:
  "sv_user (StateVectorPayload ''corrupted-data-!!!'' ''other-peer'' 10)
     \<noteq> userId (demo_provider None None)
   \<and> sv_user (StateVectorPayload ''corrupted-data-!!!'' ''other-peer'' 10)
     \<notin> syncedPeers (demo_provider None None)
   \<and> channel (demo_provider None None) = Some ''test-channel''
   \<and> snd (handleStateVector demo_engine 10
             (StateVectorPayload ''corrupted-data-!!!'' ''other-peer'' 10)
             (demo_provider None None))
       = [Emit (EvError ''InvalidCharacterError'')]"
  by (simp add: demo_provider_simps handleStateVector_def decodeUpdate_corrupted emit_def
      caught_def)

text \<open>
  C6, amended: on the first delivery in an epoch of a state-vector message from a peer
  other than the provider itself, if the payload decodes, the merge engine computes the
  diff and the provider holds a channel, then the provider broadcasts its own state
  vector as the last effect, after the diff when that is longer than two bytes and as the
  only effect otherwise. If decoding or the diff computation throws, the only effect is
  the \<open>error\<close> event and nothing is sent.
\<close>

theorem state_vector_reply:
  assumes "sv_user m \<noteq> userId s" and "sv_user m \<notin> syncedPeers s"
  shows "(decodeUpdate (sv_stateVector m) = Inr sv \<and> encodeStateAsUpdate Y (doc s) sv = Inr diff
            \<and> channel s = Some ch
          \<longrightarrow> snd (handleStateVector Y t m s)
              = (if length diff > 2
                 then [Send UPDATE_EVENT
                         (YPayload (RealtimeYPayload (encodeUpdate diff) (userId s) t))]
                 else [])
                @ [Send STATE_VECTOR_EVENT
                     (SVPayload (StateVectorPayload
                        (encodeUpdate (encodeStateVector Y (doc s))) (userId s) t))])
       \<and> (decodeUpdate (sv_stateVector m) = Inl e
            \<or> (decodeUpdate (sv_stateVector m) = Inr sv
                \<and> encodeStateAsUpdate Y (doc s) sv = Inl e)
          \<longrightarrow> snd (handleStateVector Y t m s)
              = [Emit (EvError (caught e ''Failed to handle state vector''))])"
  using assms
  by (auto simp: handleStateVector_def emit_def broadcastUpdate_def sendStateVector_def Let_def)

theorem state_vector_reply_witness:
  "sv_user (StateVectorPayload (encodeUpdate [0]) ''peer-2'' 10) \<noteq> userId (demo_provider None None)
   \<and> sv_user (StateVectorPayload (encodeUpdate [0]) ''peer-2'' 10)
       \<notin> syncedPeers (demo_provider None None)
   \<and> decodeUpdate (sv_stateVector (StateVectorPayload (encodeUpdate [0]) ''peer-2'' 10)) = Inr [0]
   \<and> encodeStateAsUpdate demo_engine (doc (demo_provider None None)) [0] = Inr []
   \<and> channel (demo_provider None None) = Some ''test-channel''
   \<and> snd (handleStateVector demo_engine 10 (StateVectorPayload (encodeUpdate [0]) ''peer-2'' 10)
            (demo_provider None None))
       = [Send STATE_VECTOR_EVENT (SVPayload (StateVectorPayload (encodeUpdate [0]) ''me'' 10))]
   \<and> sv_user (StateVectorPayload ''corrupted-data-!!!'' ''peer-2'' 10)
       \<noteq> userId (demo_provider None None)
   \<and> sv_user (StateVectorPayload ''corrupted-data-!!!'' ''peer-2'' 10)
       \<notin> syncedPeers (demo_provider None None)
   \<and> decodeUpdate (sv_stateVector (StateVectorPayload ''corrupted-data-!!!'' ''peer-2'' 10))
       = Inl (IsError ''InvalidCharacterError'')
   \<and> snd (handleStateVector demo_engine 10 (StateVectorPayload ''corrupted-data-!!!'' ''peer-2'' 10)
            (demo_provider None None))
       = [Emit (EvError ''InvalidCharacterError'')]"
proof -
  let ?s = "demo_provider None None :: (bytes list, unit) provider"
  let ?m = "StateVectorPayload (encodeUpdate [0]) ''peer-2'' 10"
  let ?m' = "StateVectorPayload ''corrupted-data-!!!'' ''peer-2'' 10"
  have a1: "sv_user ?m \<noteq> userId ?s" and a2: "sv_user ?m \<notin> syncedPeers ?s"
    and b1: "sv_user ?m' \<noteq> userId ?s" and b2: "sv_user ?m' \<notin> syncedPeers ?s"
    by (simp_all add: demo_provider_simps)
  have a3: "decodeUpdate (sv_stateVector ?m) = Inr [0]"
    by (simp add: decode_encode)
  have a4: "encodeStateAsUpdate demo_engine (doc ?s) [0] = Inr []"
    by (simp add: demo_engine_def demo_provider_simps)
  have a5: "channel ?s = Some ''test-channel''"
    by (simp add: demo_provider_simps)
  have b3: "decodeUpdate (sv_stateVector ?m') = Inl (IsError ''InvalidCharacterError'')"
    by (simp add: decodeUpdate_corrupted)
  have c1: "snd (handleStateVector demo_engine 10 ?m ?s)
       = [Send STATE_VECTOR_EVENT (SVPayload (StateVectorPayload (encodeUpdate [0]) ''me'' 10))]"
    using state_vector_reply [OF a1 a2, where Y = demo_engine and t = 10 and sv = "[0]"
          and diff = "[]" and ch = "''test-channel''", THEN conjunct1] a3 a4 a5
    by (simp add: demo_engine_def demo_provider_simps)
  have c2: "snd (handleStateVector demo_engine 10 ?m' ?s)
       = [Emit (EvError ''InvalidCharacterError'')]"
    using state_vector_reply [OF b1 b2, where Y = demo_engine and t = 10
          and e = "IsError ''InvalidCharacterError''", THEN conjunct2] b3
    by (simp add: caught_def)
  show ?thesis
    by (rule conjI [OF a1 conjI [OF a2 conjI [OF a3 conjI [OF a4 conjI [OF a5 conjI [OF c1
          conjI [OF b1 conjI [OF b2 conjI [OF b3 c2]]]]]]]]])
qed

subsection \<open>Connection status\<close>

text \<open>
  The claim C5 as stated fails: right after construction the status is connecting, and a
  \<^verbatim>\<open>CHANNEL_ERROR\<close> callback moves it to disconnected, a transition the specification
  does not name.
\<close>

theorem status_transition_counterexample:
  "status (demo_provider None None) = Connecting
   \<and> status (fst (step demo_engine 5 (SubscribeCallback CHANNEL_ERROR (Some ''Test error''))
                (demo_provider None None))) = Disconnected
   \<and> \<not> spec_transition Connecting Disconnected"
  by (simp add: demo_provider_simps step_def subscribe_callback_def setStatus_def emit_def
      scheduleReconnect_def demo_options_def spec_transition_def Let_def)

lemma step_status:
  "status (fst (step Y now ev s)) = status s
   \<or> (\<exists>st err. ev = SubscribeCallback st err
         \<and> status (fst (step Y now ev s))
             = (case st of SUBSCRIBED \<Rightarrow> Connected | _ \<Rightarrow> Disconnected))"
  by (cases ev)
    (auto simp: step_def method_defs Let_def
      split: option.splits sum.splits timeout.splits REALTIME_SUBSCRIBE_STATES.splits prod.splits if_splits)

text \<open>
  C5, amended: in every state and for every event, the status either stays as it is or
  is set by a channel status callback, to connected on \<^verbatim>\<open>SUBSCRIBED\<close> and to disconnected
  on the other three; so every change is one of connecting to connected, connecting to
  disconnected, connected to disconnected and disconnected to connected. Calls of
  \<^verbatim>\<open>connect\<close> and \<^verbatim>\<open>destroy\<close>, messages and timers leave the status alone, and it never
  returns to connecting.
\<close>

theorem status_transitions:
  "(status (fst (step Y now ev s)) = status s
    \<or> (\<exists>st err. ev = SubscribeCallback st err
          \<and> status (fst (step Y now ev s))
              = (case st of SUBSCRIBED \<Rightarrow> Connected | _ \<Rightarrow> Disconnected)))
   \<and> (status (fst (step Y now ev s)) = status s
      \<or> (status s = Connecting \<and> status (fst (step Y now ev s)) = Connected)
      \<or> (status s = Connecting \<and> status (fst (step Y now ev s)) = Disconnected)
      \<or> (status s = Connected \<and> status (fst (step Y now ev s)) = Disconnected)
      \<or> (status s = Disconnected \<and> status (fst (step Y now ev s)) = Connected))"
proof -
  note 1 = step_status [of Y now ev s]
  from 1 consider (same) "status (fst (step Y now ev s)) = status s"
    | (callback) st where "status (fst (step Y now ev s))
             = (case st of SUBSCRIBED \<Rightarrow> Connected | _ \<Rightarrow> Disconnected)"
    by blast
  then have 2: "status (fst (step Y now ev s)) = Connected
           \<or> status (fst (step Y now ev s)) = Disconnected
           \<or> status (fst (step Y now ev s)) = status s"
  proof cases
    case same
    then show ?thesis by simp
  next
    case (callback st)
    then show ?thesis by (cases st) simp_all
  qed
  have "status (fst (step Y now ev s)) = status s
      \<or> (status s = Connecting \<and> status (fst (step Y now ev s)) = Connected)
      \<or> (status s = Connecting \<and> status (fst (step Y now ev s)) = Disconnected)
      \<or> (status s = Connected \<and> status (fst (step Y now ev s)) = Disconnected)
      \<or> (status s = Disconnected \<and> status (fst (step Y now ev s)) = Connected)"
    using 2 by (cases "status s") auto
  with 1 show ?thesis by (rule conjI)
qed

subsection \<open>Reconnect backoff\<close>


lemma scheduleReconnect_noop:
  assumes "\<not> arms_reconnect s"
  shows "scheduleReconnect s = (s, [])"
proof -
  have "\<not> (case autoReconnect (options s) of None \<Rightarrow> True | Some b \<Rightarrow> b)
        \<or> \<not> shouldReconnect s
        \<or> js_le (case maxReconnectAttempts (options s) of None \<Rightarrow> PosInf | Some n \<Rightarrow> n)
             (Num (real (reconnectAttempts s)))"
    using assms
    by (cases "autoReconnect (options s)") (auto simp: arms_reconnect_def)
  then show ?thesis
    unfolding scheduleReconnect_def Let_def by (rule if_P)
qed









subsection \<open>The pending update buffer and the flush timer\<close>

lemma run_invariant:
  assumes "\<And>now ev s. P s \<Longrightarrow> P (fst (step Y now ev s))" and "P s"
  shows "P (fst (run Y evs s))"
  using assms(2)
proof (induction evs arbitrary: s)
  case Nil
  then show ?case by simp
next
  case (Cons a evs)
  obtain now ev where a: "a = (now, ev)" by (cases a)
  have "P (fst (step Y now ev s))" by (rule assms(1) [OF Cons.prems])
  from Cons.IH [OF this] show ?case by (simp only: a fst_run_Cons)
qed

lemma flush_frame:
  "broadcastTimeout (fst (connect s)) = broadcastTimeout s"
  "pendingUpdates (fst (connect s)) = pendingUpdates s"
  "broadcastTimeout (fst (subscribe_callback Y now st err s)) = broadcastTimeout s"
  "pendingUpdates (fst (subscribe_callback Y now st err s)) = pendingUpdates s"
  "broadcastTimeout (fst (handleStateVector Y now svp s)) = broadcastTimeout s"
  "pendingUpdates (fst (handleStateVector Y now svp s)) = pendingUpdates s"
  "broadcastTimeout (fst (handleRemoteUpdate Y payload s)) = broadcastTimeout s"
  "pendingUpdates (fst (handleRemoteUpdate Y payload s)) = pendingUpdates s"
  "broadcastTimeout (fst (handleRemoteAwareness Y payload s)) = broadcastTimeout s"
  "pendingUpdates (fst (handleRemoteAwareness Y payload s)) = pendingUpdates s"
  "broadcastTimeout (fst (handleAwarenessUpdate Y now added updated removed orig s))
     = broadcastTimeout s"
  "pendingUpdates (fst (handleAwarenessUpdate Y now added updated removed orig s))
     = pendingUpdates s"
  "broadcastTimeout (fst (scheduleReconnect_timer s)) = broadcastTimeout s"
  "pendingUpdates (fst (scheduleReconnect_timer s)) = pendingUpdates s"
  by (simp_all add: method_defs Let_def
      split: option.splits sum.splits REALTIME_SUBSCRIBE_STATES.splits prod.splits)

lemma destroy_flush:
  "pendingUpdates (fst (destroy Y now s)) = pendingUpdates s"
  "broadcastTimeout (fst (destroy Y now s)) = None"
  by (auto simp: destroy_def handleAwarenessUpdate_def broadcastAwarenessUpdate_def
      split: option.splits prod.splits)

lemma step_flush_frame:
  assumes "ev \<noteq> CallDestroy" and "\<forall>d upd orig. ev \<noteq> DocUpdate d upd orig"
    and "ev \<noteq> BroadcastTimerFires"
  shows "broadcastTimeout (fst (step Y now ev s)) = broadcastTimeout s
         \<and> pendingUpdates (fst (step Y now ev s)) = pendingUpdates s"
  using assms
  by (cases ev) (simp_all add: step_def flush_frame split: option.splits timeout.splits)

lemma step_flush_DocUpdate:
  "broadcastTimeout s \<noteq> Some Fired \<Longrightarrow>
   broadcastTimeout (fst (step Y now (DocUpdate d upd orig) s)) \<noteq> Some Fired
   \<and> (flush_armed (fst (step Y now (DocUpdate d upd orig) s))
        \<longrightarrow> flush_armed s \<or> pendingUpdates (fst (step Y now (DocUpdate d upd orig) s)) \<noteq> [])
   \<and> (pendingUpdates (fst (step Y now (DocUpdate d upd orig) s)) \<noteq> []
        \<longrightarrow> pendingUpdates s \<noteq> [] \<and> broadcastTimeout (fst (step Y now (DocUpdate d upd orig) s)) = broadcastTimeout s
            \<or> flush_armed (fst (step Y now (DocUpdate d upd orig) s)))
   \<and> (pendingUpdates s \<noteq> [] \<longrightarrow> pendingUpdates (fst (step Y now (DocUpdate d upd orig) s)) \<noteq> [])"
  by (auto simp: step_def handleDocUpdate_def queueBroadcast_def broadcastUpdate_def Let_def
      flush_armed_def split: option.splits timeout.splits)

lemma step_flush_timer:
  "broadcastTimeout (fst (step Y now BroadcastTimerFires s)) \<noteq> Some Fired
     \<or> broadcastTimeout s = Some Fired"
  "flush_armed s \<Longrightarrow> \<not> flush_armed (fst (step Y now BroadcastTimerFires s))
     \<and> pendingUpdates (fst (step Y now BroadcastTimerFires s)) = []"
  "\<not> flush_armed s \<Longrightarrow> step Y now BroadcastTimerFires s = (s, [])"
  by (auto simp: step_def queueBroadcast_timer_def broadcastUpdate_def Let_def
      flush_armed_def split: option.splits timeout.splits)

lemma step_flush_inv:
  assumes "broadcastTimeout s \<noteq> Some Fired \<and> (flush_armed s \<longrightarrow> pendingUpdates s \<noteq> [])"
  shows "broadcastTimeout (fst (step Y now ev s)) \<noteq> Some Fired
         \<and> (flush_armed (fst (step Y now ev s)) \<longrightarrow> pendingUpdates (fst (step Y now ev s)) \<noteq> [])"
proof (cases "ev = CallDestroy")
  case True
  then show ?thesis by (simp add: step_def destroy_flush flush_armed_def)
next
  case nd: False
  show ?thesis
  proof (cases "ev = BroadcastTimerFires")
    case True
    show ?thesis
    proof (cases "flush_armed s")
      case True
      with step_flush_timer(1,2) [where Y = Y and now = now and s = s] assms \<open>ev = BroadcastTimerFires\<close>
      show ?thesis by auto
    next
      case False
      with step_flush_timer(3) [where Y = Y and now = now and s = s] assms \<open>ev = BroadcastTimerFires\<close>
      show ?thesis by simp
    qed
  next
    case nt: False
    show ?thesis
    proof (cases "\<exists>d upd orig. ev = DocUpdate d upd orig")
      case True
      then obtain d upd orig where "ev = DocUpdate d upd orig" by blast
      with step_flush_DocUpdate [where Y = Y and now = now and s = s and d = d and upd = upd and orig = orig] assms show ?thesis by auto
    next
      case False
      with step_flush_frame [OF nd _ nt, where Y = Y and now = now and s = s] assms show ?thesis
        by (simp add: flush_armed_def)
    qed
  qed
qed

lemma step_flush_inv2:
  assumes "ev \<noteq> CallDestroy"
    and "broadcastTimeout s \<noteq> Some Fired \<and> (pendingUpdates s \<noteq> [] \<longrightarrow> flush_armed s)"
  shows "broadcastTimeout (fst (step Y now ev s)) \<noteq> Some Fired
         \<and> (pendingUpdates (fst (step Y now ev s)) \<noteq> [] \<longrightarrow> flush_armed (fst (step Y now ev s)))"
proof (cases "ev = BroadcastTimerFires")
  case True
  show ?thesis
  proof (cases "flush_armed s")
    case True
    with step_flush_timer(1,2) [where Y = Y and now = now and s = s] assms \<open>ev = BroadcastTimerFires\<close>
    show ?thesis by auto
  next
    case False
    with step_flush_timer(3) [where Y = Y and now = now and s = s] assms \<open>ev = BroadcastTimerFires\<close>
    show ?thesis by simp
  qed
next
  case nt: False
  show ?thesis
  proof (cases "\<exists>d upd orig. ev = DocUpdate d upd orig")
    case True
    then obtain d upd orig where "ev = DocUpdate d upd orig" by blast
    with step_flush_DocUpdate [where Y = Y and now = now and s = s and d = d and upd = upd and orig = orig] assms(2) show ?thesis
      by (auto simp: flush_armed_def)
  next
    case False
    with step_flush_frame [OF assms(1) _ nt, where Y = Y and now = now and s = s] assms(2) show ?thesis
      by (simp add: flush_armed_def)
  qed
qed


lemma run_flush_inv2:
  assumes "no_destroy evs"
    and "broadcastTimeout s \<noteq> Some Fired \<and> (pendingUpdates s \<noteq> [] \<longrightarrow> flush_armed s)"
  shows "broadcastTimeout (fst (run Y evs s)) \<noteq> Some Fired
         \<and> (pendingUpdates (fst (run Y evs s)) \<noteq> [] \<longrightarrow> flush_armed (fst (run Y evs s)))"
  using assms
proof (induction evs arbitrary: s)
  case Nil
  then show ?case by simp
next
  case (Cons a evs)
  obtain now ev where a: "a = (now, ev)" by (cases a)
  from Cons.prems(1) a have nd: "ev \<noteq> CallDestroy" and rest: "no_destroy evs" by simp_all
  note step = step_flush_inv2 [OF nd Cons.prems(2), of Y now]
  show ?case
    unfolding a fst_run_Cons by (rule Cons.IH [OF rest step])
qed

lemma new_provider_flush:
  "broadcastTimeout (fst (new_provider name d uid opts aw)) = None"
  "pendingUpdates (fst (new_provider name d uid opts aw)) = []"
  by (simp_all add: new_provider_def connect_def)

text \<open>
  The claim C7 as stated fails: with a throttle of 100 ms, one local edit followed by
  \<^verbatim>\<open>destroy\<close> leaves the edit in the buffer while no flush timer is armed.
\<close>

theorem flush_timer_buffer_counterexample:
  "pendingUpdates (fst (run demo_engine [(1, DocUpdate [[1]] [1] OriginOther), (2, CallDestroy)]
       (demo_provider (Some 100) None))) = [[1]]
   \<and> \<not> flush_armed (fst (run demo_engine
       [(1, DocUpdate [[1]] [1] OriginOther), (2, CallDestroy)] (demo_provider (Some 100) None)))"
  by (simp add: case_prod_unfold step_def [of _ _ CallDestroy] destroy_flush flush_armed_def
      step_def [of _ _ "DocUpdate _ _ _"] handleDocUpdate_def queueBroadcast_def
      demo_provider_simps demo_options_def)

text \<open>
  C7, amended: in every state reached from the constructor, an armed flush timer implies
  a non-empty buffer; along runs without \<^verbatim>\<open>destroy\<close> a non-empty buffer also implies an
  armed flush timer. \<^verbatim>\<open>destroy\<close> cancels the flush timer and leaves the buffer as it is.
\<close>

theorem flush_timer_buffer:
  "(flush_armed (fst (run Y evs (fst (new_provider name d uid opts aw))))
      \<longrightarrow> pendingUpdates (fst (run Y evs (fst (new_provider name d uid opts aw)))) \<noteq> [])
   \<and> (no_destroy evs
       \<and> pendingUpdates (fst (run Y evs (fst (new_provider name d uid opts aw)))) \<noteq> []
      \<longrightarrow> flush_armed (fst (run Y evs (fst (new_provider name d uid opts aw)))))
   \<and> \<not> flush_armed (fst (destroy Y now s))
   \<and> pendingUpdates (fst (destroy Y now s)) = pendingUpdates s"
proof -
  let ?s0 = "fst (new_provider name d uid opts aw)"
  let ?P = "\<lambda>s. broadcastTimeout s \<noteq> Some Fired \<and> (flush_armed s \<longrightarrow> pendingUpdates s \<noteq> [])"
  have init: "?P ?s0"
    by (simp add: new_provider_flush flush_armed_def)
  have "?P (fst (run Y evs ?s0))"
    by (rule run_invariant [where P = ?P, OF step_flush_inv init])
  then have 1: "flush_armed (fst (run Y evs ?s0)) \<longrightarrow> pendingUpdates (fst (run Y evs ?s0)) \<noteq> []"
    by (rule conjunct2)
  have init2: "broadcastTimeout ?s0 \<noteq> Some Fired \<and> (pendingUpdates ?s0 \<noteq> [] \<longrightarrow> flush_armed ?s0)"
    by (simp add: new_provider_flush)
  have 2: "no_destroy evs \<and> pendingUpdates (fst (run Y evs ?s0)) \<noteq> []
      \<longrightarrow> flush_armed (fst (run Y evs ?s0))"
    using run_flush_inv2 [OF _ init2, of evs Y] by (intro impI) (elim conjE, simp)
  have 3: "\<not> flush_armed (fst (destroy Y now s))"
    by (simp add: flush_armed_def destroy_flush)
  have 4: "pendingUpdates (fst (destroy Y now s)) = pendingUpdates s"
    by (rule destroy_flush)
  show ?thesis
    by (rule conjI [OF 1 conjI [OF 2 conjI [OF 3 4]]])
qed

theorem flush_timer_buffer_witness:
  "flush_armed (fst (run demo_engine [(1, DocUpdate [[1]] [1] OriginOther)]
       (demo_provider (Some 100) None)))
   \<and> no_destroy [(1 :: int, DocUpdate [[1]] [1] OriginOther :: (bytes list, unit) event)]
   \<and> pendingUpdates (fst (run demo_engine [(1, DocUpdate [[1]] [1] OriginOther)]
       (demo_provider (Some 100) None))) \<noteq> []
   \<and> \<not> flush_armed (fst (destroy demo_engine 2
        (fst (run demo_engine [(1, DocUpdate [[1]] [1] OriginOther)]
           (demo_provider (Some 100) None)))))
   \<and> pendingUpdates (fst (destroy demo_engine 2
        (fst (run demo_engine [(1, DocUpdate [[1]] [1] OriginOther)]
           (demo_provider (Some 100) None)))))
       = pendingUpdates (fst (run demo_engine [(1, DocUpdate [[1]] [1] OriginOther)]
           (demo_provider (Some 100) None)))"
proof -
  let ?evs = "[(1, DocUpdate [[1]] [1] OriginOther)] :: (int \<times> (bytes list, unit) event) list"
  let ?S = "fst (run demo_engine ?evs (demo_provider (Some 100) None))"
  note T = flush_timer_buffer [of demo_engine ?evs "''test-channel''" "[]" "''me''"
      "demo_options (Some 100) None" None 2 ?S, folded demo_provider_def]
  have h1: "flush_armed ?S"
    by (simp add: case_prod_unfold flush_armed_def step_def handleDocUpdate_def
        queueBroadcast_def demo_provider_simps demo_options_def)
  have h2: "no_destroy ?evs" by simp
  have c1: "pendingUpdates ?S \<noteq> []"
    using T [THEN conjunct1] h1 by (rule mp)
  show ?thesis
    by (rule conjI [OF h1 conjI [OF h2 conjI [OF c1 T [THEN conjunct2, THEN conjunct2]]]])
qed

subsection \<open>Throttled broadcast\<close>

lemma step_local_edit:
  assumes "broadcastThrottleMs (options s) = Some (Num w)" and "0 < w" and "docListening s"
  shows "step Y now (DocUpdate d upd OriginOther) s
     = (s\<lparr>doc := d, pendingUpdates := pendingUpdates s @ [upd],
          broadcastTimeout :=
            (case broadcastTimeout s of None \<Rightarrow> Some (Pending (Num w)) | Some x \<Rightarrow> Some x)\<rparr>,
        [])"
  using assms
  by (cases "broadcastTimeout s")
    (simp_all add: step_def handleDocUpdate_def queueBroadcast_def Let_def)

lemma step_edit_silent:
  assumes "broadcastThrottleMs (options s) = Some (Num w)" and "0 < w"
  shows "snd (step Y now (DocUpdate d upd orig) s) = []"
  using assms
  by (simp add: step_def handleDocUpdate_def queueBroadcast_def Let_def)

lemma step_options: "options (fst (step Y now ev s)) = options s"
  by (cases ev)
    (auto simp: step_def method_defs Let_def
      split: option.splits sum.splits timeout.splits REALTIME_SUBSCRIBE_STATES.splits prod.splits if_splits)

lemma flush_step:
  assumes "broadcastTimeout s = Some (Pending w)" and "pendingUpdates s \<noteq> []"
    and "channel s = Some ch"
  shows "step Y now BroadcastTimerFires s
     = (s\<lparr>broadcastTimeout := None, pendingUpdates := []\<rparr>,
        [Send UPDATE_EVENT
           (YPayload (RealtimeYPayload
              (encodeUpdate (if length (pendingUpdates s) = 1 then pendingUpdates s ! 0
                             else mergeUpdates Y (pendingUpdates s)))
              (userId s) now))])"
  using assms
  by (simp add: step_def queueBroadcast_timer_def broadcastUpdate_def Let_def)

lemma encodeUpdate_inj: "encodeUpdate a = encodeUpdate b \<Longrightarrow> a = b"
proof -
  assume "encodeUpdate a = encodeUpdate b"
  then have "decodeUpdate (encodeUpdate a) = decodeUpdate (encodeUpdate b)" by simp
  then show "a = b" by (simp only: decode_encode sum.inject)
qed

lemma listen_frame:
  "docListening (fst (subscribe_callback Y now st err s)) = docListening s"
  "channel (fst (subscribe_callback Y now st err s)) = channel s"
  "docListening (fst (handleStateVector Y now svp s)) = docListening s"
  "channel (fst (handleStateVector Y now svp s)) = channel s"
  "docListening (fst (handleRemoteUpdate Y payload s)) = docListening s"
  "channel (fst (handleRemoteUpdate Y payload s)) = channel s"
  "docListening (fst (handleRemoteAwareness Y payload s)) = docListening s"
  "channel (fst (handleRemoteAwareness Y payload s)) = channel s"
  "docListening (fst (handleAwarenessUpdate Y now added updated removed orig s)) = docListening s"
  "channel (fst (handleAwarenessUpdate Y now added updated removed orig s)) = channel s"
  "docListening (fst (handleDocUpdate now upd orig s)) = docListening s"
  "channel (fst (handleDocUpdate now upd orig s)) = channel s"
  "docListening (fst (queueBroadcast_timer Y now s)) = docListening s"
  "channel (fst (queueBroadcast_timer Y now s)) = channel s"
  by (simp_all add: method_defs Let_def
      split: option.splits sum.splits REALTIME_SUBSCRIBE_STATES.splits prod.splits)

lemma destroy_listen: "docListening (fst (destroy Y now s)) = False"
  by (auto simp: destroy_def handleAwarenessUpdate_def broadcastAwarenessUpdate_def
      split: option.splits prod.splits)

lemma connect_listen: "channel (fst (connect s)) = Some (channelName s)"
  by (simp add: connect_def)

lemma step_listen_inv:
  assumes "docListening s \<longrightarrow> channel s \<noteq> None"
  shows "docListening (fst (step Y now ev s)) \<longrightarrow> channel (fst (step Y now ev s)) \<noteq> None"
  using assms
  by (cases ev)
    (simp_all add: step_def listen_frame destroy_listen connect_listen scheduleReconnect_timer_def
      split: option.splits timeout.splits)

lemma new_provider_listen:
  "docListening (fst (new_provider name d uid opts aw))
     \<longrightarrow> channel (fst (new_provider name d uid opts aw)) \<noteq> None"
  by (simp add: new_provider_def connect_def)

lemma step_keeps_listening:
  assumes "ev \<noteq> CallDestroy" and "docListening s"
  shows "docListening (fst (step Y now ev s))"
  using assms
  by (cases ev)
    (simp_all add: step_def listen_frame connect_def scheduleReconnect_timer_def
      split: option.splits timeout.splits)

lemma step_window:
  assumes "broadcastThrottleMs (options s) = Some (Num w)" and "0 < w" and "docListening s"
    and "ev \<noteq> CallDestroy" and "ev \<noteq> BroadcastTimerFires"
  shows "pendingUpdates (fst (step Y now ev s)) = pendingUpdates s @ local_updates [(now, ev)]
     \<and> broadcastTimeout (fst (step Y now ev s))
         = (if local_updates [(now, ev)] = [] then broadcastTimeout s
            else (case broadcastTimeout s of None \<Rightarrow> Some (Pending (Num w))
                  | Some x \<Rightarrow> Some x))"
proof (cases "\<exists>d upd orig. ev = DocUpdate d upd orig")
  case True
  then obtain d upd orig where ev: "ev = DocUpdate d upd orig" by blast
  show ?thesis
  proof (cases orig)
    case OriginRemote
    then show ?thesis
      using assms(3) by (simp add: ev step_def handleDocUpdate_def)
  next
    case OriginOther
    show ?thesis
      unfolding ev OriginOther step_local_edit [OF assms(1,2,3)] by simp
  qed
next
  case False
  then have lu: "local_updates [(now, ev)] = []"
    by (cases ev) simp_all
  from False have "\<forall>d upd orig. ev \<noteq> DocUpdate d upd orig" by simp
  from step_flush_frame [OF assms(4) this assms(5), of Y now s] show ?thesis
    unfolding lu by simp
qed

lemma local_updates_Cons:
  "local_updates ((now, ev) # evs) = local_updates [(now, ev)] @ local_updates evs"
  by simp

lemma run_window:
  assumes "broadcastThrottleMs (options s) = Some (Num w)" and "0 < w" and "docListening s"
    and "in_window evs"
  shows "pendingUpdates (fst (run Y evs s)) = pendingUpdates s @ local_updates evs
     \<and> broadcastTimeout (fst (run Y evs s))
         = (if local_updates evs = [] then broadcastTimeout s
            else (case broadcastTimeout s of None \<Rightarrow> Some (Pending (Num w))
                  | Some x \<Rightarrow> Some x))
     \<and> docListening (fst (run Y evs s))"
  using assms(1,3,4)
proof (induction evs arbitrary: s)
  case Nil
  then show ?case by simp
next
  case (Cons a evs)
  obtain now ev where a: "a = (now, ev)" by (cases a)
  let ?s1 = "fst (step Y now ev s)"
  from Cons.prems(3) have nd: "ev \<noteq> CallDestroy" and nt: "ev \<noteq> BroadcastTimerFires"
    and rest: "in_window evs"
    by (simp_all add: a)
  have th1: "broadcastThrottleMs (options ?s1) = Some (Num w)"
    using Cons.prems(1) by (simp add: step_options)
  have l1: "docListening ?s1"
    by (rule step_keeps_listening [OF nd Cons.prems(2)])
  note W = step_window [OF Cons.prems(1) assms(2) Cons.prems(2) nd nt, of Y now]
  note IH = Cons.IH [OF th1 l1 rest]
  have p: "pendingUpdates (fst (run Y evs ?s1))
      = pendingUpdates s @ local_updates ((now, ev) # evs)"
    unfolding IH [THEN conjunct1] W [THEN conjunct1] local_updates_Cons [of now ev evs]
    by simp
  have t: "broadcastTimeout (fst (run Y evs ?s1))
      = (if local_updates ((now, ev) # evs) = [] then broadcastTimeout s
         else (case broadcastTimeout s of None \<Rightarrow> Some (Pending (Num w)) | Some x \<Rightarrow> Some x))"
    unfolding IH [THEN conjunct2, THEN conjunct1] W [THEN conjunct2]
      local_updates_Cons [of now ev evs]
    by (cases "broadcastTimeout s") simp_all
  have l: "docListening (fst (run Y evs ?s1))"
    by (rule IH [THEN conjunct2, THEN conjunct2])
  show ?case
    unfolding a fst_run_Cons by (rule conjI [OF p conjI [OF t l]])
qed

lemma destroy_then_timer:
  "step Y now BroadcastTimerFires (fst (step Y t CallDestroy s))
     = (fst (step Y t CallDestroy s), [])"
proof -
  have "\<not> flush_armed (fst (step Y t CallDestroy s))"
    by (simp add: step_def destroy_flush flush_armed_def)
  then show ?thesis by (rule step_flush_timer(3))
qed

text \<open>
  The claim C2 as stated fails in two ways. A \<^verbatim>\<open>destroy\<close> inside the window cancels the
  flush timer, so that one edit, \<^verbatim>\<open>destroy\<close> and the time of the flush produce no update
  broadcast at all. And the edit stays in the buffer: after \<^verbatim>\<open>connect\<close> a window with
  the single edit \<open>[2]\<close> broadcasts the merge of \<open>[1]\<close> and \<open>[2]\<close>, not the update \<open>[2]\<close>
  unchanged.
\<close>

theorem throttled_merge_counterexample:
  "snd (run demo_engine
          [(1, DocUpdate [[1]] [1] OriginOther), (2, CallDestroy), (3, CallConnect)]
          (demo_provider (Some 100) None))
     = [RemoveChannel ''test-channel'', Subscribe ''test-channel'']
   \<and> broadcastTimeout (fst (run demo_engine
          [(1, DocUpdate [[1]] [1] OriginOther), (2, CallDestroy), (3, CallConnect)]
          (demo_provider (Some 100) None))) = None
   \<and> snd (run demo_engine
          [(4, DocUpdate [[1], [2]] [2] OriginOther), (104, BroadcastTimerFires)]
          (fst (run demo_engine
             [(1, DocUpdate [[1]] [1] OriginOther), (2, CallDestroy), (3, CallConnect)]
             (demo_provider (Some 100) None))))
     = [Send UPDATE_EVENT (YPayload (RealtimeYPayload (encodeUpdate [1, 2]) ''me'' 104))]
   \<and> encodeUpdate [1, 2] \<noteq> encodeUpdate [2]
   \<and> snd (run demo_engine
          [(1, DocUpdate [[1]] [1] OriginOther), (2, CallDestroy), (101, BroadcastTimerFires)]
          (demo_provider (Some 100) None))
     = [RemoveChannel ''test-channel'']"
proof -
  let ?s0 = "demo_provider (Some 100) None :: (bytes list, unit) provider"
  let ?s1 = "?s0\<lparr>doc := [[1]], pendingUpdates := [[1]],
                 broadcastTimeout := Some (Pending (Num 100))\<rparr>"
  let ?s2 = "?s1\<lparr>shouldReconnect := False, broadcastTimeout := None, docListening := False,
                 channel := None\<rparr>"
  let ?s3 = "?s2\<lparr>shouldReconnect := True, docListening := True, syncedPeers := {},
                 channel := Some ''test-channel''\<rparr>"
  let ?s4 = "?s3\<lparr>doc := [[1], [2]], pendingUpdates := [[1], [2]],
                 broadcastTimeout := Some (Pending (Num 100))\<rparr>"
  have e1: "step demo_engine 1 (DocUpdate [[1]] [1] OriginOther) ?s0 = (?s1, [])"
    using step_local_edit [of ?s0 100 demo_engine 1 "[[1]]" "[1]"]
    by (simp add: demo_provider_simps demo_options_def)
  have e2: "step demo_engine 2 CallDestroy ?s1 = (?s2, [RemoveChannel ''test-channel''])"
    by (simp add: step_def destroy_def demo_provider_simps)
  have e3: "step demo_engine 3 CallConnect ?s2 = (?s3, [Subscribe ''test-channel''])"
    by (simp add: step_def connect_def demo_provider_def new_provider_def)
  have e4: "step demo_engine 4 (DocUpdate [[1], [2]] [2] OriginOther) ?s3 = (?s4, [])"
    using step_local_edit [of ?s3 100 demo_engine 4 "[[1], [2]]" "[2]"]
    by (simp add: demo_provider_simps demo_options_def)
  have e5: "snd (step demo_engine 104 BroadcastTimerFires ?s4)
     = [Send UPDATE_EVENT (YPayload (RealtimeYPayload (encodeUpdate [1, 2]) ''me'' 104))]"
    using flush_step [of ?s4 "Num 100" "''test-channel''" demo_engine 104]
    by (simp add: demo_provider_simps demo_engine_def)
  have e6: "step demo_engine 101 BroadcastTimerFires ?s2 = (?s2, [])"
    by (simp add: step_def)
  have r1: "run demo_engine
          [(1, DocUpdate [[1]] [1] OriginOther), (2, CallDestroy), (3, CallConnect)] ?s0
        = (?s3, [RemoveChannel ''test-channel'', Subscribe ''test-channel''])"
    by (simp only: run.simps e1 e2 e3 prod.case append.simps)
  have r2: "snd (run demo_engine
          [(4, DocUpdate [[1], [2]] [2] OriginOther), (104, BroadcastTimerFires)] ?s3)
     = [Send UPDATE_EVENT (YPayload (RealtimeYPayload (encodeUpdate [1, 2]) ''me'' 104))]"
    by (simp only: snd_run_Cons fst_run_Cons run.simps(1) e4 e5 fst_conv snd_conv append.simps
        append_Nil2)
  have r3: "run demo_engine
          [(1, DocUpdate [[1]] [1] OriginOther), (2, CallDestroy), (101, BroadcastTimerFires)] ?s0
        = (?s2, [RemoveChannel ''test-channel''])"
    by (simp only: run.simps e1 e2 e6 prod.case append.simps)
  have ne: "encodeUpdate [1, 2] \<noteq> encodeUpdate [2]"
    using encodeUpdate_inj [of "[1, 2]" "[2]"] by auto
  show ?thesis
    unfolding r1 r3 using r2 ne by simp
qed

text \<open>
  C2, amended: take a state reached from the constructor in which the document listener
  is registered (the provider has not been destroyed since its last \<^verbatim>\<open>connect\<close>) and
  the throttle is a positive number, and let any events follow among which \<^verbatim>\<open>destroy\<close>
  is not called and the flush timer does not fire, with at least one local edit among
  them. Then the flush timer firing after these events sends exactly one update
  broadcast, empties the buffer and disarms the timer. The payload of the broadcast
  encodes what the buffer held at the start followed by the update payloads of the local
  edits, in order: that payload unchanged when it is the only one, and \<^verbatim>\<open>Y.mergeUpdates\<close>
  of all of them otherwise. A change notification of the document sends nothing when it
  happens. A call of \<^verbatim>\<open>destroy\<close> leaves the buffer as it is, and the flush timer that
  it cancelled sends nothing.
\<close>

theorem throttled_merge:
  assumes "s = fst (run Y evs0 (fst (new_provider name d uid opts aw)))"
    and "docListening s" and "broadcastThrottleMs (options s) = Some (Num w)" and "0 < w"
    and "in_window evs" and "local_updates evs \<noteq> []"
  shows "step Y now BroadcastTimerFires (fst (run Y evs s))
         = ((fst (run Y evs s))\<lparr>broadcastTimeout := None, pendingUpdates := []\<rparr>,
            [Send UPDATE_EVENT
               (YPayload (RealtimeYPayload
                  (encodeUpdate
                     (if length (pendingUpdates s @ local_updates evs) = 1
                      then (pendingUpdates s @ local_updates evs) ! 0
                      else mergeUpdates Y (pendingUpdates s @ local_updates evs)))
                  (userId s) now))])
     \<and> (options s' = options s \<longrightarrow> snd (step Y t (DocUpdate d' upd orig) s') = [])
     \<and> pendingUpdates (fst (step Y t CallDestroy s')) = pendingUpdates s'
     \<and> step Y now BroadcastTimerFires (fst (step Y t CallDestroy s'))
         = (fst (step Y t CallDestroy s'), [])"
proof -
  let ?s0 = "fst (new_provider name d uid opts aw)"
  let ?s' = "fst (run Y evs s)"
  let ?L = "\<lambda>s. docListening s \<longrightarrow> channel s \<noteq> None"
  have Ls: "?L s"
    unfolding assms(1)
    by (rule run_invariant [where P = ?L, OF step_listen_inv new_provider_listen])
  have Ls': "?L ?s'"
    by (rule run_invariant [where P = ?L, OF step_listen_inv Ls])
  let ?P = "\<lambda>s. broadcastTimeout s \<noteq> Some Fired \<and> (flush_armed s \<longrightarrow> pendingUpdates s \<noteq> [])"
  have init: "?P ?s0"
    by (simp add: new_provider_flush flush_armed_def)
  have Ps: "?P s"
    unfolding assms(1) by (rule run_invariant [where P = ?P, OF step_flush_inv init])
  note R = run_window [OF assms(3,4,2,5), of Y]
  have pend: "pendingUpdates ?s' = pendingUpdates s @ local_updates evs"
    by (rule R [THEN conjunct1])
  have nf: "broadcastTimeout s \<noteq> Some Fired"
    by (rule Ps [THEN conjunct1])
  have "\<exists>x. broadcastTimeout ?s' = Some (Pending x)"
  proof (cases "broadcastTimeout s")
    case None
    then show ?thesis
      unfolding R [THEN conjunct2, THEN conjunct1] using assms(6) by simp
  next
    case (Some a)
    with nf obtain y where "a = Pending y" by (cases a) simp_all
    with Some show ?thesis
      unfolding R [THEN conjunct2, THEN conjunct1] using assms(6) by simp
  qed
  then obtain x where tmo: "broadcastTimeout ?s' = Some (Pending x)" by (elim exE)
  have "docListening ?s'"
    by (rule R [THEN conjunct2, THEN conjunct2])
  with Ls' obtain ch where ch: "channel ?s' = Some ch" by auto
  have ne: "pendingUpdates ?s' \<noteq> []"
    unfolding pend using assms(6) by simp
  have uid: "userId ?s' = userId s"
    by (rule run_userId)
  have c1: "step Y now BroadcastTimerFires ?s'
         = (?s'\<lparr>broadcastTimeout := None, pendingUpdates := []\<rparr>,
            [Send UPDATE_EVENT
               (YPayload (RealtimeYPayload
                  (encodeUpdate
                     (if length (pendingUpdates s @ local_updates evs) = 1
                      then (pendingUpdates s @ local_updates evs) ! 0
                      else mergeUpdates Y (pendingUpdates s @ local_updates evs)))
                  (userId s) now))])"
    using flush_step [OF tmo ne ch, of Y now] unfolding pend uid .
  have c2: "options s' = options s \<longrightarrow> snd (step Y t (DocUpdate d' upd orig) s') = []"
  proof
    assume "options s' = options s"
    with assms(3) have "broadcastThrottleMs (options s') = Some (Num w)" by simp
    then show "snd (step Y t (DocUpdate d' upd orig) s') = []"
      using assms(4) by (rule step_edit_silent)
  qed
  have c3: "pendingUpdates (fst (step Y t CallDestroy s')) = pendingUpdates s'"
    by (simp add: step_def destroy_flush)
  have c4: "step Y now BroadcastTimerFires (fst (step Y t CallDestroy s'))
         = (fst (step Y t CallDestroy s'), [])"
    by (rule destroy_then_timer)
  show ?thesis
    by (rule conjI [OF c1 conjI [OF c2 conjI [OF c3 c4]]])
qed

theorem throttled_merge_witness:
  "demo_provider (Some 100) None
     = fst (run demo_engine []
         (fst (new_provider ''test-channel'' [] ''me'' (demo_options (Some 100) None) None)))
   \<and> docListening (demo_provider (Some 100) None)
   \<and> broadcastThrottleMs (options (demo_provider (Some 100) None)) = Some (Num 100)
   \<and> (0 :: real) < 100
   \<and> in_window
        [(1, DocUpdate [[1]] [1] OriginOther), (2, SubscribeCallback SUBSCRIBED None),
         (3, DocUpdate [[1], [2]] [2] OriginOther), (4, DocUpdate [[1], [2], [9]] [9] OriginRemote),
         (5, DocUpdate [[1], [2], [9], [3]] [3] OriginOther)
           :: int \<times> (bytes list, unit) event]
   \<and> local_updates
        [(1, DocUpdate [[1]] [1] OriginOther), (2, SubscribeCallback SUBSCRIBED None),
         (3, DocUpdate [[1], [2]] [2] OriginOther), (4, DocUpdate [[1], [2], [9]] [9] OriginRemote),
         (5, DocUpdate [[1], [2], [9], [3]] [3] OriginOther)
           :: int \<times> (bytes list, unit) event]
       = [[1], [2], [3]]
   \<and> snd (step demo_engine 101 BroadcastTimerFires
        (fst (run demo_engine
               [(1, DocUpdate [[1]] [1] OriginOther), (2, SubscribeCallback SUBSCRIBED None),
                (3, DocUpdate [[1], [2]] [2] OriginOther),
                (4, DocUpdate [[1], [2], [9]] [9] OriginRemote),
                (5, DocUpdate [[1], [2], [9], [3]] [3] OriginOther)]
               (demo_provider (Some 100) None))))
       = [Send UPDATE_EVENT (YPayload (RealtimeYPayload (encodeUpdate [1, 2, 3]) ''me'' 101))]
   \<and> snd (step demo_engine 6 (DocUpdate [[7]] [7] OriginOther) (demo_provider (Some 100) None))
       = []"
proof -
  let ?s = "demo_provider (Some 100) None :: (bytes list, unit) provider"
  let ?evs = "[(1, DocUpdate [[1]] [1] OriginOther), (2, SubscribeCallback SUBSCRIBED None),
         (3, DocUpdate [[1], [2]] [2] OriginOther), (4, DocUpdate [[1], [2], [9]] [9] OriginRemote),
         (5, DocUpdate [[1], [2], [9], [3]] [3] OriginOther)]
           :: (int \<times> (bytes list, unit) event) list"
  have h0: "?s = fst (run demo_engine []
         (fst (new_provider ''test-channel'' [] ''me'' (demo_options (Some 100) None) None)))"
    by (simp add: demo_provider_def)
  have h1: "broadcastThrottleMs (options ?s) = Some (Num 100)"
    by (simp add: demo_provider_simps demo_options_def)
  have h2: "(0 :: real) < 100" by simp
  have h3: "docListening ?s" and h5: "pendingUpdates ?s = []"
    by (simp_all add: demo_provider_simps)
  have h6: "in_window ?evs" by simp
  have lu: "local_updates ?evs = [[1], [2], [3]]" by simp
  have h7: "local_updates ?evs \<noteq> []" unfolding lu by simp
  note T = throttled_merge [OF h0 h3 h1 h2 h6 h7, where now = 101 and s' = ?s and t = 6
      and d' = "[[7]]" and upd = "[7]" and orig = OriginOther]
  have c1: "snd (step demo_engine 101 BroadcastTimerFires (fst (run demo_engine ?evs ?s)))
       = [Send UPDATE_EVENT (YPayload (RealtimeYPayload (encodeUpdate [1, 2, 3]) ''me'' 101))]"
    unfolding T [THEN conjunct1] lu h5
    by (simp add: demo_engine_def demo_provider_simps)
  have c2: "snd (step demo_engine 6 (DocUpdate [[7]] [7] OriginOther) ?s) = []"
    using T [THEN conjunct2, THEN conjunct1] by simp
  show ?thesis
    by (rule conjI [OF h0 conjI [OF h3 conjI [OF h1 conjI [OF h2 conjI [OF h6
          conjI [OF lu conjI [OF c1 c2]]]]]]])
qed

end
